theory Spec2Isabelle
  imports Main "HOL-Library.AList" "HOL-Library.Sublist"
begin

section \<open>JavaScript values\<close>

text \<open>
  Payloads, configurations and queries are JavaScript values.  The model covers the
  JSON-shaped values together with \<open>undefined\<close>; numbers are integers.  An object is
  the list of its own enumerable string-keyed properties in insertion order (keys are
  distinct in every object the program builds), an array is the list of its elements.
\<close>

datatype jsval =
    JUndefined
  | JNull
  | JBool bool
  | JNum int
  | JStr string
  | JArr "jsval list"
  | JObj "(string \<times> jsval) list"

text \<open>Truthiness, as tested by \<open>if (x)\<close>, \<open>!x\<close> and \<open>x || y\<close>.\<close>

fun truthy :: "jsval \<Rightarrow> bool" where
  "truthy JUndefined = False"
| "truthy JNull = False"
| "truthy (JBool b) = b"
| "truthy (JNum n) = (n \<noteq> 0)"
| "truthy (JStr s) = (s \<noteq> [])"
| "truthy (JArr items) = True"
| "truthy (JObj props) = True"

text \<open>\<open>typeof x === 'object'\<close>: true of objects, arrays and \<open>null\<close>.\<close>

fun typeof_object :: "jsval \<Rightarrow> bool" where
  "typeof_object JNull = True"
| "typeof_object (JArr items) = True"
| "typeof_object (JObj props) = True"
| "typeof_object v = False"

definition js_or :: "jsval \<Rightarrow> jsval \<Rightarrow> jsval" where
  "js_or a b = (if truthy a then a else b)"

text \<open>
  The assignment \<open>obj[key] = v\<close> on an ordinary object: an existing own property is
  overwritten in place, a new one is added last.  The key \<open>__proto__\<close> reaches the
  accessor inherited from \<open>Object.prototype\<close> and creates no own property.
\<close>

definition obj_set :: "(string \<times> jsval) list \<Rightarrow> string \<Rightarrow> jsval \<Rightarrow> (string \<times> jsval) list" where
  "obj_set props key v = (if key = ''__proto__'' then props else AList.update key v props)"

text \<open>Reading an own property of an object: \<open>undefined\<close> when the key is absent.\<close>

definition obj_get :: "(string \<times> jsval) list \<Rightarrow> string \<Rightarrow> jsval" where
  "obj_get props key = (case map_of props key of Some v \<Rightarrow> v | None \<Rightarrow> JUndefined)"

text \<open>
  What can be thrown: the TypeError of a property access on \<open>null\<close> or
  \<open>undefined\<close>, the SyntaxError of \<open>JSON.parse\<close>, and a failure of the store's
  read API.
\<close>

datatype js_error = TypeError | SyntaxError | StoreError

definition bindE :: "'e + 'a \<Rightarrow> ('a \<Rightarrow> 'e + 'b) \<Rightarrow> 'e + 'b" where
  "bindE m f = (case m of Inl e \<Rightarrow> Inl e | Inr a \<Rightarrow> f a)"

text \<open>
  \<open>x.key\<close> throws a TypeError on \<open>undefined\<close> and \<open>null\<close>; \<open>x?.key\<close> yields
  \<open>undefined\<close> there.  The keys the program reads (\<open>count\<close>, \<open>ids\<close>, \<open>id\<close>,
  \<open>documentId\<close>, \<open>where\<close>, \<open>params\<close>) are own properties of no primitive and no array.
\<close>

fun get_prop :: "jsval \<Rightarrow> string \<Rightarrow> js_error + jsval" where
  "get_prop JUndefined key = Inl TypeError"
| "get_prop JNull key = Inl TypeError"
| "get_prop (JObj props) key = Inr (obj_get props key)"
| "get_prop v key = Inr JUndefined"

fun get_prop_opt :: "jsval \<Rightarrow> string \<Rightarrow> jsval" where
  "get_prop_opt (JObj props) key = obj_get props key"
| "get_prop_opt v key = JUndefined"

text \<open>
  \<open>x.key = v\<close> in strict mode (the module starts with \<open>'use strict'\<close>): a TypeError
  on \<open>undefined\<close>, \<open>null\<close> and on every primitive.  Arrays carry no named
  properties in this model.
\<close>

fun set_prop :: "jsval \<Rightarrow> string \<Rightarrow> jsval \<Rightarrow> js_error + jsval" where
  "set_prop (JObj props) key v = Inr (JObj (obj_set props key v))"
| "set_prop (JArr items) key v = Inr (JArr items)"
| "set_prop x key v = Inl TypeError"

text \<open>
  \<open>JSON.parse(JSON.stringify(x))\<close>: a property whose value is \<open>undefined\<close> is
  left out, an \<open>undefined\<close> array element becomes \<open>null\<close>, and \<open>undefined\<close> itself
  serialises to no text at all, which \<open>JSON.parse\<close> rejects.
\<close>

fun json_value :: "jsval \<Rightarrow> jsval" where
  "json_value (JArr items) =
     JArr (map (\<lambda>item. if item = JUndefined then JNull else json_value item) items)"
| "json_value (JObj props) =
     JObj (map (\<lambda>(key, v). (key, json_value v)) (filter (\<lambda>(key, v). v \<noteq> JUndefined) props))"
| "json_value v = v"

definition json_clone :: "jsval \<Rightarrow> js_error + jsval" where
  "json_clone v = (if v = JUndefined then Inl SyntaxError else Inr (json_value v))"

text \<open>String conversion of a property key, \<open>String(x)\<close>.\<close>

definition digit_char :: "nat \<Rightarrow> char" where
  "digit_char d = ''0123456789'' ! d"

fun string_of_nat :: "nat \<Rightarrow> string" where
  "string_of_nat n =
     (if n < 10 then [digit_char n] else string_of_nat (n div 10) @ [digit_char (n mod 10)])"

definition string_of_int :: "int \<Rightarrow> string" where
  "string_of_int i = (if i < 0 then CHR ''-'' # string_of_nat (nat (- i)) else string_of_nat (nat i))"

fun join :: "string \<Rightarrow> string list \<Rightarrow> string" where
  "join sep [] = []"
| "join sep [s] = s"
| "join sep (s # t # ss) = s @ sep @ join sep (t # ss)"

fun toString :: "jsval \<Rightarrow> string" where
  "toString JUndefined = ''undefined''"
| "toString JNull = ''null''"
| "toString (JBool b) = (if b then ''true'' else ''false'')"
| "toString (JNum n) = string_of_int n"
| "toString (JStr s) = s"
| "toString (JArr items) =
     join '','' (map (\<lambda>item. if item = JUndefined \<or> item = JNull then [] else toString item) items)"
| "toString (JObj props) = ''[object Object]''"

section \<open>Sanitizer (services/sanitize.js)\<close>

definition DEFAULT_SENSITIVE_FIELDS :: "string list" where
  "DEFAULT_SENSITIVE_FIELDS =
     [''password'', ''resetPasswordToken'', ''confirmationToken'', ''refreshToken'',
      ''accessToken'', ''secret'', ''apiKey'', ''api_key'', ''privateKey'', ''private_key'',
      ''token'', ''salt'', ''hash'']"

text \<open>\<open>String.prototype.toLowerCase\<close> on ASCII text: the letters A to Z are mapped.\<close>

definition toLowerChar :: "char \<Rightarrow> char" where
  "toLowerChar c =
     (case map_of (zip ''ABCDEFGHIJKLMNOPQRSTUVWXYZ'' ''abcdefghijklmnopqrstuvwxyz'') c of
        Some l \<Rightarrow> l
      | None \<Rightarrow> c)"

definition toLowerCase :: "string \<Rightarrow> string" where
  "toLowerCase s = map toLowerChar s"

text \<open>\<open>s.includes(t)\<close>: \<open>t\<close> occurs in \<open>s\<close> as a contiguous run.\<close>

fun str_includes :: "string \<Rightarrow> string \<Rightarrow> bool" where
  "str_includes [] t = (t = [])"
| "str_includes (c # s) t = (prefix t (c # s) \<or> str_includes s t)"

text \<open>The test of line 44: \<open>sensitiveFields.some(sf => ...)\<close>.\<close>

definition isSensitive :: "string list \<Rightarrow> string \<Rightarrow> bool" where
  "isSensitive sensitiveFields key =
     (let lowerKey = toLowerCase key
      in list_ex (\<lambda>sf. lowerKey = toLowerCase sf \<or> str_includes lowerKey (toLowerCase sf))
           sensitiveFields)"

fun removeSensitiveFields :: "jsval \<Rightarrow> string list \<Rightarrow> jsval" where
  "removeSensitiveFields data sensitiveFields =
     (if \<not> truthy data \<or> \<not> typeof_object data then data
      else case data of
        JArr items \<Rightarrow> JArr (map (\<lambda>item. removeSensitiveFields item sensitiveFields) items)
      | JObj entries \<Rightarrow>
          JObj (fold (\<lambda>(key, val) acc.
                  if isSensitive sensitiveFields key then acc
                  else if truthy val \<and> typeof_object val
                    then obj_set acc key (removeSensitiveFields val sensitiveFields)
                    else obj_set acc key val) entries [])
      | _ \<Rightarrow> data)"

definition getSensitiveFields :: "string list \<Rightarrow> string list" where
  "getSensitiveFields customFields = DEFAULT_SENSITIVE_FIELDS @ customFields"

definition sanitizeRaw :: "string list \<Rightarrow> jsval \<Rightarrow> jsval" where
  "sanitizeRaw customFields data = removeSensitiveFields data (getSensitiveFields customFields)"

text \<open>Every key that occurs in a value, at any depth.\<close>

fun keys_at_any_depth :: "jsval \<Rightarrow> string list" where
  "keys_at_any_depth (JArr items) = concat (map keys_at_any_depth items)"
| "keys_at_any_depth (JObj entries) =
     concat (map (\<lambda>(key, val). key # keys_at_any_depth val) entries)"
| "keys_at_any_depth v = []"

text \<open>
  A value all of whose objects have distinct keys, none of them \<open>__proto__\<close>: what an
  object literal or a store row is.
\<close>

fun plain_object :: "jsval \<Rightarrow> bool" where
  "plain_object (JArr items) = list_all plain_object items"
| "plain_object (JObj entries) =
     (distinct (map fst entries) \<and> ''__proto__'' \<notin> set (map fst entries) \<and>
      list_all (\<lambda>(key, val). plain_object val) entries)"
| "plain_object v = True"

text \<open>A value that holds \<open>undefined\<close> nowhere: what JSON text can denote.\<close>

fun json_shaped :: "jsval \<Rightarrow> bool" where
  "json_shaped JUndefined = False"
| "json_shaped (JArr items) = list_all json_shaped items"
| "json_shaped (JObj props) = list_all (\<lambda>(key, v). json_shaped v) props"
| "json_shaped v = True"

section \<open>Populate Normalizer (bootstrap/lifecycle.js)\<close>

fun normalizePopulate :: "jsval \<Rightarrow> jsval" where
  "normalizePopulate config =
     (if config = JStr ''*'' \<or> config = JBool True then JStr ''*''
      else case config of
        JArr fields \<Rightarrow>
          JObj (fold (\<lambda>field acc. obj_set acc (toString field) (JBool True)) fields [])
      | JObj props \<Rightarrow> config
      | _ \<Rightarrow> JUndefined)"

section \<open>Configuration, events and the host\<close>

text \<open>
  One entry of \<open>plugin.io.contentTypes\<close>.  An entry that is a bare uid string is the
  entry with that uid, no \<open>actions\<close> and no \<open>populate\<close>; an absent \<open>populate\<close> is
  \<open>undefined\<close>.
\<close>

record content_type =
  ct_uid :: string
  ct_actions :: "string list option"
  ct_populate :: jsval

definition populateConfig :: "content_type \<Rightarrow> jsval" where
  "populateConfig ct = ct_populate ct"

definition hasPopulate :: "content_type \<Rightarrow> bool" where
  "hasPopulate ct = (populateConfig ct \<noteq> JUndefined)"

text \<open>\<open>!ct.actions || ct.actions.includes(a)\<close>.\<close>

definition action_enabled :: "content_type \<Rightarrow> string \<Rightarrow> bool" where
  "action_enabled ct a = (case ct_actions ct of None \<Rightarrow> True | Some as \<Rightarrow> a \<in> set as)"

text \<open>
  A lifecycle event as the store hands it to a hook: the action name, the model
  identity, the nullable result, the write parameters and the per-event state bag
  (the last two are objects, given by their properties).
\<close>

record model_info =
  singularName :: string
  uid :: string

record event =
  action :: string
  model :: model_info
  result :: jsval
  params :: "(string \<times> jsval) list"
  state :: "(string \<times> jsval) list"

text \<open>
  The callbacks handed to the scheduler are closures; each constructor holds what its
  closure captures.  \<open>EmitSingle\<close> is the callback of \<open>afterCreate\<close> and
  \<open>afterUpdate\<close> (event type, content type, \<open>documentId\<close>, \<open>modelInfo\<close>, event),
  \<open>EmitBulk\<close> that of \<open>afterCreateMany\<close> and \<open>afterUpdateMany\<close> (event type,
  content type, query, \<open>modelInfo\<close>), \<open>EmitDelete\<close> that of \<open>afterDelete\<close>
  (content type, \<open>modelInfo\<close>, \<open>deleteData\<close>).  An event is a value: what the
  store does to the event object after the hook has returned is outside the model.
\<close>

datatype callback =
    EmitSingle string content_type jsval model_info event
  | EmitBulk string content_type jsval model_info
  | EmitDelete content_type model_info jsval

datatype log_level = LogDebug | LogWarn | LogError

datatype store_call = FindOne string jsval | FindMany string jsval

datatype io_call = IoEmit jsval | IoRaw jsval

datatype tx_ctx = StoreCtx | FallbackCtx

text \<open>
  The state the module works on: its own variable \<open>transactionCtx\<close> (\<open>None\<close> is the
  initial \<open>null\<close>), the store's open transaction with the commit listeners registered
  on it (\<open>None\<close> when no transaction is open), the timer queue of \<open>setTimeout\<close> with
  the time each entry is due, and what has been logged, read from the store and
  handed to the channel so far.
\<close>

record world =
  transactionCtx :: "tx_ctx option"
  activeTx :: "(callback \<times> nat) list option"
  clock :: nat
  timers :: "(nat \<times> callback) list"
  logs :: "(log_level \<times> string) list"
  storeCalls :: "store_call list"
  published :: "io_call list"

text \<open>
  The host: whether \<open>require('@strapi/database/dist/transaction-context')\<close> resolves
  (to a module exporting \<open>transactionCtx\<close>), and the store's read API, which may fail.
\<close>

record host =
  requireResolves :: bool
  findOne :: "string \<Rightarrow> jsval \<Rightarrow> js_error + jsval"
  findMany :: "string \<Rightarrow> jsval \<Rightarrow> js_error + jsval"

text \<open>
  Logging, the channel and the timer queue.  The channel is fire-and-forget
  (section 6 of the specification): \<open>strapi.$io.emit\<close> and \<open>strapi.$io.raw\<close> are
  recorded with their argument and do not fail.
\<close>

definition log_at :: "log_level \<Rightarrow> string \<Rightarrow> world \<Rightarrow> world" where
  "log_at lvl msg w = w\<lparr>logs := logs w @ [(lvl, msg)]\<rparr>"

definition io_emit :: "jsval \<Rightarrow> world \<Rightarrow> world" where
  "io_emit arg w = w\<lparr>published := published w @ [IoEmit arg]\<rparr>"

definition io_raw :: "jsval \<Rightarrow> world \<Rightarrow> world" where
  "io_raw arg w = w\<lparr>published := published w @ [IoRaw arg]\<rparr>"

definition setTimeout :: "callback \<Rightarrow> nat \<Rightarrow> world \<Rightarrow> world" where
  "setTimeout cb delay w = w\<lparr>timers := timers w @ [(clock w + delay, cb)]\<rparr>"

section \<open>Commit Scheduler\<close>

definition getTransactionCtx :: "host \<Rightarrow> world \<Rightarrow> tx_ctx \<times> world" where
  "getTransactionCtx h w =
     (case transactionCtx w of
        Some ctx \<Rightarrow> (ctx, w)
      | None \<Rightarrow>
          if requireResolves h then (StoreCtx, w\<lparr>transactionCtx := Some StoreCtx\<rparr>)
          else (FallbackCtx,
                (log_at LogWarn ''[@strapi-community/plugin-io] Unable to access transaction context:'' w)
                  \<lparr>transactionCtx := Some FallbackCtx\<rparr>))"

text \<open>
  \<open>ctx.get()\<close> and \<open>ctx.onCommit(runner)\<close>.  The fallback object of line 16 answers
  \<open>null\<close> and ignores the listener.  The store's own context answers the open
  transaction and adds the listener to it.
\<close>

definition ctx_get :: "tx_ctx \<Rightarrow> world \<Rightarrow> bool" where
  "ctx_get ctx w = (case ctx of FallbackCtx \<Rightarrow> False | StoreCtx \<Rightarrow> activeTx w \<noteq> None)"

definition ctx_onCommit :: "tx_ctx \<Rightarrow> callback \<times> nat \<Rightarrow> world \<Rightarrow> world" where
  "ctx_onCommit ctx r w =
     (case ctx of
        FallbackCtx \<Rightarrow> w
      | StoreCtx \<Rightarrow>
          (case activeTx w of None \<Rightarrow> w | Some ls \<Rightarrow> w\<lparr>activeTx := Some (ls @ [r])\<rparr>))"

text \<open>The closure \<open>runner = () => setTimeout(callback, delay)\<close>, as the pair it captures.\<close>

definition runner :: "callback \<times> nat \<Rightarrow> world \<Rightarrow> world" where
  "runner r w = setTimeout (fst r) (snd r) w"

definition scheduleAfterTransaction :: "host \<Rightarrow> callback \<Rightarrow> nat \<Rightarrow> world \<Rightarrow> world" where
  "scheduleAfterTransaction h cb delay w =
     (let (ctx, w1) = getTransactionCtx h w
      in if ctx_get ctx w1 then ctx_onCommit ctx (cb, delay) w1 else runner (cb, delay) w1)"

text \<open>
  Modelled from the spec: the store's transaction, which is not part of the
  repository.  A commit runs the commit listeners of the transaction, once each, and
  closes it; a rollback closes it and runs none of them (sections 4.3 and 6).
\<close>

definition begin_tx :: "world \<Rightarrow> world" where
  "begin_tx w = w\<lparr>activeTx := Some []\<rparr>"

definition commit_tx :: "world \<Rightarrow> world" where
  "commit_tx w =
     (case activeTx w of None \<Rightarrow> w | Some ls \<Rightarrow> fold runner ls (w\<lparr>activeTx := None\<rparr>))"

definition rollback_tx :: "world \<Rightarrow> world" where
  "rollback_tx w = w\<lparr>activeTx := None\<rparr>"

section \<open>Query Builder\<close>

definition buildEventQuery :: "event \<Rightarrow> js_error + (string \<times> jsval) list" where
  "buildEventQuery ev =
     (let query0 = [];
          query1 = (if truthy (obj_get (params ev) ''where'')
                    then obj_set query0 ''filters'' (obj_get (params ev) ''where'')
                    else query0);
          query2 = (if truthy (get_prop_opt (result ev) ''count'')
                    then obj_set query1 ''limit'' (get_prop_opt (result ev) ''count'')
                    else if truthy (obj_get (params ev) ''limit'')
                    then obj_set query1 ''limit'' (obj_get (params ev) ''limit'')
                    else query1)
      in if action ev = ''afterCreateMany''
         then bindE (get_prop (result ev) ''ids'')
                (\<lambda>ids. Inr (obj_set query2 ''filters'' (JObj [(''id'', ids)])))
         else if action ev = ''beforeUpdate''
         then Inr (obj_set query2 ''fields'' (JArr [JStr ''id'']))
         else Inr query2)"

section \<open>Emission Coordinator\<close>

definition model_object :: "model_info \<Rightarrow> jsval" where
  "model_object m = JObj [(''singularName'', JStr (singularName m)), (''uid'', JStr (uid m))]"

definition fetchWithPopulate :: "host \<Rightarrow> string \<Rightarrow> jsval \<Rightarrow> jsval \<Rightarrow> world \<Rightarrow> jsval \<times> world" where
  "fetchWithPopulate h u documentId config w =
     (if \<not> truthy documentId
      then (JNull, log_at LogDebug (''[socket.io] Cannot fetch without documentId for '' @ u) w)
      else
        let populate = normalizePopulate config;
            arg = JObj [(''documentId'', documentId), (''populate'', populate)];
            w1 = w\<lparr>storeCalls := storeCalls w @ [FindOne u arg]\<rparr>
        in case findOne h u arg of
             Inr r \<Rightarrow> (r, w1)
           | Inl e \<Rightarrow>
               (JNull, log_at LogDebug (''[socket.io] Error fetching with populate for '' @ u @ '':'') w1))"

text \<open>
  The body of the \<open>try\<close> block of the callback of \<open>afterCreate\<close> and
  \<open>afterUpdate\<close> (lines 119 to 138 and 191 to 210).
\<close>

definition emit_single_try :: "host \<Rightarrow> string \<Rightarrow> content_type \<Rightarrow> jsval \<Rightarrow> model_info \<Rightarrow> event \<Rightarrow> world \<Rightarrow> js_error option \<times> world" where
  "emit_single_try h eventType ct documentId modelInfo ev w =
     (let send = (\<lambda>d w'. io_emit (JObj [(''event'', JStr eventType),
                                         (''schema'', model_object modelInfo),
                                         (''data'', d)]) w')
      in if hasPopulate ct \<and> truthy documentId
         then (case fetchWithPopulate h (ct_uid ct) documentId (populateConfig ct) w of
                 (fetched, w1) \<Rightarrow>
                   if \<not> truthy fetched
                   then (case json_clone (result ev) of
                           Inl e \<Rightarrow> (Some e, w1)
                         | Inr d \<Rightarrow> (None, send d w1))
                   else (None, send fetched w1))
         else (case json_clone (result ev) of
                 Inl e \<Rightarrow> (Some e, w)
               | Inr d \<Rightarrow> (None, send d w)))"

text \<open>
  The body of the \<open>try\<close> block of the callback of \<open>afterCreateMany\<close> and
  \<open>afterUpdateMany\<close>; \<open>records.forEach\<close> exists on arrays only.
\<close>

definition emit_bulk_try :: "host \<Rightarrow> string \<Rightarrow> content_type \<Rightarrow> jsval \<Rightarrow> model_info \<Rightarrow> world \<Rightarrow> js_error option \<times> world" where
  "emit_bulk_try h eventType ct query modelInfo w =
     (let w1 = w\<lparr>storeCalls := storeCalls w @ [FindMany (ct_uid ct) query]\<rparr>
      in case findMany h (ct_uid ct) query of
           Inl e \<Rightarrow> (Some e, w1)
         | Inr records \<Rightarrow>
             (case records of
                JArr rs \<Rightarrow>
                  (None, fold (\<lambda>r. io_emit (JObj [(''event'', JStr eventType),
                                                   (''schema'', model_object modelInfo),
                                                   (''data'', r)])) rs w1)
              | _ \<Rightarrow> (Some TypeError, w1)))"

text \<open>
  Running a scheduled callback.  Each one is a \<open>try\<close> block whose \<open>catch\<close> logs;
  what the block did before it threw stays done.
\<close>

fun run_callback :: "host \<Rightarrow> callback \<Rightarrow> world \<Rightarrow> world" where
  "run_callback h (EmitSingle eventType ct documentId modelInfo ev) w =
     (case emit_single_try h eventType ct documentId modelInfo ev w of
        (None, w') \<Rightarrow> w'
      | (Some e, w') \<Rightarrow>
          log_at (if eventType = ''create'' then LogError else LogDebug)
            (''[socket.io] Could not emit '' @ eventType @ '' event for '' @ ct_uid ct @ '':'') w')"
| "run_callback h (EmitBulk eventType ct query modelInfo) w =
     (case emit_bulk_try h eventType ct query modelInfo w of
        (None, w') \<Rightarrow> w'
      | (Some e, w') \<Rightarrow>
          log_at LogDebug
            (''[socket.io] Could not fetch records in ''
               @ (if eventType = ''create'' then ''afterCreateMany'' else ''afterUpdateMany'')
               @ '' for '' @ ct_uid ct @ '':'') w')"
| "run_callback h (EmitDelete ct modelInfo deleteData) w =
     io_raw (JObj [(''event'', JStr (singularName modelInfo @ '':'' @ ''delete'')),
                   (''data'', deleteData)]) w"

text \<open>The hook handlers.  A handler is an async function: an error is its rejection.\<close>

definition single_handler :: "string \<Rightarrow> string \<Rightarrow> host \<Rightarrow> content_type \<Rightarrow> event \<Rightarrow> world \<Rightarrow> js_error + event \<times> world" where
  "single_handler hook eventType h ct ev w =
     (if \<not> truthy (result ev)
      then Inr (ev, log_at LogDebug
                      (''[socket.io] No result data in '' @ hook @ '' for '' @ ct_uid ct) w)
      else
        let documentId = get_prop_opt (result ev) ''documentId'';
            modelInfo = \<lparr>singularName = singularName (model ev), uid = uid (model ev)\<rparr>
        in Inr (ev, scheduleAfterTransaction h
                      (EmitSingle eventType ct documentId modelInfo ev)
                      (if hasPopulate ct then 50 else 0) w))"

definition afterCreate :: "host \<Rightarrow> content_type \<Rightarrow> event \<Rightarrow> world \<Rightarrow> js_error + event \<times> world" where
  "afterCreate = single_handler ''afterCreate'' ''create''"

definition afterUpdate :: "host \<Rightarrow> content_type \<Rightarrow> event \<Rightarrow> world \<Rightarrow> js_error + event \<times> world" where
  "afterUpdate = single_handler ''afterUpdate'' ''update''"

definition afterCreateMany :: "host \<Rightarrow> content_type \<Rightarrow> event \<Rightarrow> world \<Rightarrow> js_error + event \<times> world" where
  "afterCreateMany h ct ev w =
     bindE (buildEventQuery ev)
       (\<lambda>query.
          if truthy (obj_get query ''filters'')
          then bindE (json_clone (JObj query))
                 (\<lambda>clonedQuery.
                    let modelInfo = \<lparr>singularName = singularName (model ev), uid = uid (model ev)\<rparr>
                    in bindE (if hasPopulate ct
                              then set_prop clonedQuery ''populate'' (normalizePopulate (populateConfig ct))
                              else Inr clonedQuery)
                         (\<lambda>q. Inr (ev, scheduleAfterTransaction h
                                          (EmitBulk ''create'' ct q modelInfo) 50 w)))
          else Inr (ev, w))"

definition beforeUpdateMany :: "host \<Rightarrow> content_type \<Rightarrow> event \<Rightarrow> world \<Rightarrow> js_error + event \<times> world" where
  "beforeUpdateMany h ct ev w =
     (let state1 = (if \<not> truthy (obj_get (state ev) ''io'')
                    then obj_set (state ev) ''io'' (JObj [])
                    else state ev)
      in bindE (set_prop (obj_get state1 ''io'') ''params'' (JObj (params ev)))
           (\<lambda>io. Inr (ev\<lparr>state := obj_set state1 ''io'' io\<rparr>, w)))"

definition afterUpdateMany :: "host \<Rightarrow> content_type \<Rightarrow> event \<Rightarrow> world \<Rightarrow> js_error + event \<times> world" where
  "afterUpdateMany h ct ev w =
     (let params' = get_prop_opt (obj_get (state ev) ''io'') ''params''
      in if \<not> truthy params' \<or> \<not> truthy (get_prop_opt params' ''where'') then Inr (ev, w)
         else bindE (json_clone (get_prop_opt params' ''where''))
                (\<lambda>clonedWhere.
                   let modelInfo = \<lparr>singularName = singularName (model ev), uid = uid (model ev)\<rparr>;
                       query0 = [(''filters'', clonedWhere)];
                       query = (if hasPopulate ct
                                then obj_set query0 ''populate'' (normalizePopulate (populateConfig ct))
                                else query0)
                   in Inr (ev, scheduleAfterTransaction h
                                 (EmitBulk ''update'' ct (JObj query) modelInfo) 50 w)))"

definition afterDelete :: "host \<Rightarrow> content_type \<Rightarrow> event \<Rightarrow> world \<Rightarrow> js_error + event \<times> world" where
  "afterDelete h ct ev w =
     (if \<not> truthy (result ev)
      then Inr (ev, log_at LogDebug
                      (''[socket.io] No result data in afterDelete for '' @ ct_uid ct) w)
      else
        let deleteData =
              JObj [(''id'', js_or (get_prop_opt (result ev) ''id'')
                                  (get_prop_opt (result ev) ''documentId'')),
                    (''documentId'', js_or (get_prop_opt (result ev) ''documentId'')
                                          (get_prop_opt (result ev) ''id''))];
            modelInfo = \<lparr>singularName = singularName (model ev), uid = uid (model ev)\<rparr>
        in Inr (ev, scheduleAfterTransaction h (EmitDelete ct modelInfo deleteData) 100 w))"

text \<open>
  \<open>bootstrapLifecycles\<close>: the subscriber built for one content type, as the list of
  the hook names it defines with the handler of each, and the list of subscribers
  handed to \<open>strapi.db.lifecycles.subscribe\<close>.
\<close>

datatype handler =
    AfterCreate | AfterCreateMany | AfterUpdate | BeforeUpdateMany | AfterUpdateMany | AfterDelete

definition subscriber :: "content_type \<Rightarrow> (string \<times> handler) list" where
  "subscriber ct =
     (if action_enabled ct ''create''
      then [(''afterCreate'', AfterCreate), (''afterCreateMany'', AfterCreateMany)] else [])
     @ (if action_enabled ct ''update''
        then [(''afterUpdate'', AfterUpdate), (''beforeUpdateMany'', BeforeUpdateMany),
              (''afterUpdateMany'', AfterUpdateMany)] else [])
     @ (if action_enabled ct ''delete'' then [(''afterDelete'', AfterDelete)] else [])"

definition bootstrapLifecycles :: "content_type list \<Rightarrow> (content_type \<times> (string \<times> handler) list) list" where
  "bootstrapLifecycles contentTypes = map (\<lambda>ct. (ct, subscriber ct)) contentTypes"

fun run_handler :: "handler \<Rightarrow> host \<Rightarrow> content_type \<Rightarrow> event \<Rightarrow> world \<Rightarrow> js_error + event \<times> world" where
  "run_handler AfterCreate = afterCreate"
| "run_handler AfterCreateMany = afterCreateMany"
| "run_handler AfterUpdate = afterUpdate"
| "run_handler BeforeUpdateMany = beforeUpdateMany"
| "run_handler AfterUpdateMany = afterUpdateMany"
| "run_handler AfterDelete = afterDelete"

text \<open>
  Modelled from the spec: the store's hook dispatch, which is not part of the
  repository.  For an event, the store calls on each subscriber whose \<open>models\<close> list
  holds the event's model uid the handler named by the event's action, if the
  subscriber defines one; a handler that rejects fails the write (sections 6 and 7).
\<close>

fun dispatch :: "host \<Rightarrow> (content_type \<times> (string \<times> handler) list) list \<Rightarrow> event \<Rightarrow> world \<Rightarrow> js_error + event \<times> world" where
  "dispatch h [] ev w = Inr (ev, w)"
| "dispatch h ((ct, sub) # subs) ev w =
     (if uid (model ev) = ct_uid ct
      then (case map_of sub (action ev) of
              None \<Rightarrow> dispatch h subs ev w
            | Some hnd \<Rightarrow>
                bindE (run_handler hnd h ct ev w) (\<lambda>(ev', w'). dispatch h subs ev' w'))
      else dispatch h subs ev w)"

text \<open>
  The timer queue: time passes by \<open>d\<close> milliseconds and every timer then due fires, in
  the order of the due times (and of \<open>setTimeout\<close> calls among equal ones).  No
  callback of this module sets a timer.
\<close>

definition fire_due :: "host \<Rightarrow> world \<Rightarrow> world" where
  "fire_due h w =
     (let due = filter (\<lambda>(t, cb). t \<le> clock w) (timers w);
          rest = filter (\<lambda>(t, cb). \<not> t \<le> clock w) (timers w)
      in fold (\<lambda>(t, cb). run_callback h cb) (sort_key fst due) (w\<lparr>timers := rest\<rparr>))"

definition advance :: "host \<Rightarrow> nat \<Rightarrow> world \<Rightarrow> world" where
  "advance h d w = fire_due h (w\<lparr>clock := clock w + d\<rparr>)"

definition initial_world :: world where
  "initial_world =
     \<lparr>transactionCtx = None, activeTx = None, clock = 0, timers = [], logs = [],
      storeCalls = [], published = []\<rparr>"

text \<open>
  Two worlds with the same scheduling state: the same timers, open transaction, clock
  and cached transaction context.  Running a callback changes none of them.
\<close>

definition same_schedule :: "world \<Rightarrow> world \<Rightarrow> bool" where
  "same_schedule w w' \<longleftrightarrow>
     timers w' = timers w \<and> activeTx w' = activeTx w \<and> clock w' = clock w
     \<and> transactionCtx w' = transactionCtx w"

section \<open>Sample configuration\<close>

text \<open>
  A content type, its model and two hosts, used where a statement is tried on a
  concrete input: a host whose store finds nothing, with the transaction context
  available, and the same host without it.
\<close>

definition article :: content_type where
  "article = \<lparr>ct_uid = ''api::article.article'', ct_actions = None, ct_populate = JUndefined\<rparr>"

definition article_populated :: content_type where
  "article_populated =
     \<lparr>ct_uid = ''api::article.article'', ct_actions = None,
      ct_populate = JArr [JStr ''author'']\<rparr>"

definition article_model :: model_info where
  "article_model = \<lparr>singularName = ''article'', uid = ''api::article.article''\<rparr>"

definition quiet_host :: host where
  "quiet_host =
     \<lparr>requireResolves = True, findOne = (\<lambda>u arg. Inr JNull), findMany = (\<lambda>u q. Inr (JArr []))\<rparr>"

definition bare_host :: host where
  "bare_host =
     \<lparr>requireResolves = False, findOne = (\<lambda>u arg. Inr JNull), findMany = (\<lambda>u q. Inr (JArr []))\<rparr>"

definition failing_host :: host where
  "failing_host =
     \<lparr>requireResolves = True, findOne = (\<lambda>u arg. Inl StoreError),
      findMany = (\<lambda>u q. Inl StoreError)\<rparr>"

definition three_rows_host :: host where
  "three_rows_host =
     \<lparr>requireResolves = True, findOne = (\<lambda>u arg. Inr JNull),
      findMany = (\<lambda>u q. Inr (JArr [JObj [(''id'', JNum 1)], JObj [(''id'', JNum 2)],
                                     JObj [(''id'', JNum 3)]]))\<rparr>"

section \<open>Sanitizer: every sensitive key is removed\<close>

lemma str_includes_iff: "str_includes s t \<longleftrightarrow> (\<exists>p q. s = p @ t @ q)"
proof (induction s)
  case Nil
  then show ?case by auto
next
  case (Cons c s)
  show ?case
  proof
    assume "str_includes (c # s) t"
    then consider "prefix t (c # s)" | "str_includes s t" by auto
    then show "\<exists>p q. c # s = p @ t @ q"
    proof cases
      case 1
      then obtain q where "c # s = t @ q" by (auto simp: prefix_def)
      then have "c # s = [] @ t @ q" by simp
      then show ?thesis by blast
    next
      case 2
      with Cons.IH obtain p q where "s = p @ t @ q" by blast
      then have "c # s = (c # p) @ t @ q" by simp
      then show ?thesis by blast
    qed
  next
    assume "\<exists>p q. c # s = p @ t @ q"
    then obtain p q where pq: "c # s = p @ t @ q" by blast
    show "str_includes (c # s) t"
    proof (cases p)
      case Nil
      with pq have "prefix t (c # s)" by (simp add: prefix_def)
      then show ?thesis by simp
    next
      case (Cons a p')
      with pq have "s = p' @ t @ q" by simp
      with Cons.IH have "str_includes s t" by blast
      then show ?thesis by simp
    qed
  qed
qed

lemma isSensitive_iff:
  "isSensitive fs k \<longleftrightarrow> (\<exists>F \<in> set fs. \<exists>p q. toLowerCase k = p @ toLowerCase F @ q)"
proof -
  have "\<And>a b. a = b \<Longrightarrow> \<exists>p q. (a::string) = p @ b @ q"
    by (metis append_Nil append_Nil2)
  then show ?thesis
    unfolding isSensitive_def Let_def list_ex_iff str_includes_iff by blast
qed


lemma rsf_leaf:
  "\<not> truthy v \<or> \<not> typeof_object v \<Longrightarrow> removeSensitiveFields v fs = v"
  by simp

lemma rsf_arr:
  "removeSensitiveFields (JArr items) fs = JArr (map (\<lambda>item. removeSensitiveFields item fs) items)"
  by simp

lemma rsf_obj:
  "removeSensitiveFields (JObj entries) fs =
     JObj (fold (\<lambda>(key, val) acc.
                   if isSensitive fs key then acc
                   else obj_set acc key (removeSensitiveFields val fs)) entries [])"
proof -
  have "(\<lambda>(key, val) acc.
            if isSensitive fs key then acc
            else if truthy val \<and> typeof_object val
              then obj_set acc key (removeSensitiveFields val fs)
              else obj_set acc key val)
        = (\<lambda>(key, val) acc.
            if isSensitive fs key then acc
            else obj_set acc key (removeSensitiveFields val fs))"
    by (intro ext) (auto split: prod.splits)
  then show ?thesis by simp
qed

declare removeSensitiveFields.simps [simp del]

lemma set_obj_set: "set (obj_set props k v) \<subseteq> insert (k, v) (set props)"
  by (induction props) (auto simp: obj_set_def)

lemma fst_set_obj_set: "fst ` set (obj_set props k v) \<subseteq> insert k (fst ` set props)"
  using set_obj_set [of props k v] by force

lemma keys_obj_set:
  "fst ` set (obj_set props k v) =
     (if k = ''__proto__'' then fst ` set props else insert k (fst ` set props))"
  by (simp add: obj_set_def dom_update)

lemma loop_entries:
  "(k, v') \<in> set (fold (\<lambda>(key, val) acc.
                      if S key then acc else obj_set acc key (h val)) entries acc)
   \<Longrightarrow> (k, v') \<in> set acc \<or> (\<not> S k \<and> (\<exists>v. (k, v) \<in> set entries \<and> v' = h v))"
proof (induction entries arbitrary: acc)
  case Nil
  then show ?case by simp
next
  case (Cons e entries)
  obtain key val where e: "e = (key, val)" by (cases e)
  show ?case
  proof (cases "S key")
    case True
    with Cons e show ?thesis by auto
  next
    case False
    with Cons.prems e have
      "(k, v') \<in> set (fold (\<lambda>(key, val) acc.
          if S key then acc else obj_set acc key (h val)) entries (obj_set acc key (h val)))"
      by simp
    from Cons.IH [OF this] consider "(k, v') \<in> set (obj_set acc key (h val))"
      | "\<not> S k \<and> (\<exists>v. (k, v) \<in> set entries \<and> v' = h v)" by blast
    then show ?thesis
    proof cases
      case 1
      with set_obj_set [of acc key "h val"] have "(k, v') = (key, h val) \<or> (k, v') \<in> set acc"
        by auto
      with False e show ?thesis by auto
    next
      case 2
      then show ?thesis by auto
    qed
  qed
qed

lemma rsf_entries:
  assumes "removeSensitiveFields (JObj entries) fs = JObj out" and "(k, v') \<in> set out"
  shows "\<not> isSensitive fs k \<and> (\<exists>v. (k, v) \<in> set entries \<and> v' = removeSensitiveFields v fs)"
proof -
  from assms have
    "(k, v') \<in> set (fold (\<lambda>(key, val) acc.
        if isSensitive fs key then acc
        else obj_set acc key (removeSensitiveFields val fs)) entries [])"
    by (simp only: rsf_obj jsval.inject)
  from loop_entries [OF this] show ?thesis by simp
qed

lemma keys_obj_iff:
  "K \<in> set (keys_at_any_depth (JObj entries)) \<longleftrightarrow>
     (\<exists>(k, v) \<in> set entries. K = k \<or> K \<in> set (keys_at_any_depth v))"
  by auto

lemma rsf_no_sensitive_key:
  "K \<in> set (keys_at_any_depth (removeSensitiveFields P fs)) \<Longrightarrow> \<not> isSensitive fs K"
proof (induction P fs arbitrary: K rule: removeSensitiveFields.induct)
  case (1 data fs)
  show ?case
  proof (cases data)
    case (JArr items)
    with "1.prems" obtain item where "item \<in> set items"
      and "K \<in> set (keys_at_any_depth (removeSensitiveFields item fs))"
      by (auto simp: rsf_arr)
    with "1.IH"(1) [OF _ JArr] JArr show ?thesis by simp
  next
    case (JObj entries)
    obtain out where out: "removeSensitiveFields (JObj entries) fs = JObj out"
      by (simp only: rsf_obj)
    with "1.prems" JObj obtain k v' where kv: "(k, v') \<in> set out"
      and K: "K = k \<or> K \<in> set (keys_at_any_depth v')"
      by auto
    from rsf_entries [OF out kv] obtain v where ns: "\<not> isSensitive fs k"
      and v: "(k, v) \<in> set entries" and v': "v' = removeSensitiveFields v fs" by blast
    show ?thesis
    proof (cases "K = k")
      case True
      with ns show ?thesis by simp
    next
      case False
      with K v' have Kin: "K \<in> set (keys_at_any_depth (removeSensitiveFields v fs))" by simp
      show ?thesis
      proof (cases "truthy v \<and> typeof_object v")
        case True
        from "1.IH"(2) [OF _ JObj v refl ns True Kin] JObj show ?thesis by simp
      next
        case False
        then have "removeSensitiveFields v fs = v" by (intro rsf_leaf) blast
        with False Kin show ?thesis by (cases v) auto
      qed
    qed
  qed (use "1.prems" in \<open>auto simp: rsf_leaf\<close>)
qed


lemma update_fresh: "k \<notin> fst ` set ps \<Longrightarrow> AList.update k v ps = ps @ [(k, v)]"
  by (induction ps) auto

lemma loop_plain:
  "distinct (map fst entries) \<Longrightarrow> ''__proto__'' \<notin> fst ` set entries \<Longrightarrow>
   fst ` set entries \<inter> fst ` set acc = {} \<Longrightarrow> \<forall>k \<in> fst ` set entries. \<not> S k \<Longrightarrow>
   fold (\<lambda>(key, val) acc.
           if S key then acc else obj_set acc key (h val)) entries acc
     = acc @ map (\<lambda>(key, val). (key, h val)) entries"
proof (induction entries arbitrary: acc)
  case Nil
  then show ?case by simp
next
  case (Cons e entries)
  obtain key val where e: "e = (key, val)" by (cases e)
  from Cons.prems e have fresh: "key \<notin> fst ` set acc" and np: "key \<noteq> ''__proto__''"
    and ns: "\<not> S key" by auto
  then have step: "obj_set acc key (h val) = acc @ [(key, h val)]"
    by (simp add: obj_set_def update_fresh)
  from Cons.prems e have "fst ` set entries \<inter> fst ` set (acc @ [(key, h val)]) = {}"
    by auto
  with Cons.prems e have
    "fold (\<lambda>(key, val) acc. if S key then acc else obj_set acc key (h val))
        entries (acc @ [(key, h val)])
      = (acc @ [(key, h val)]) @ map (\<lambda>(key, val). (key, h val)) entries"
    by (intro Cons.IH) auto
  with e ns step show ?case by simp
qed

lemma rsf_plain_identity:
  "plain_object P \<Longrightarrow> \<forall>K \<in> set (keys_at_any_depth P). \<not> isSensitive fs K \<Longrightarrow>
   removeSensitiveFields P fs = P"
proof (induction P fs rule: removeSensitiveFields.induct)
  case (1 data fs)
  show ?case
  proof (cases data)
    case (JArr items)
    have "removeSensitiveFields item fs = item" if "item \<in> set items" for item
    proof -
      from that "1.prems" JArr have "plain_object item"
        and "\<forall>K \<in> set (keys_at_any_depth item). \<not> isSensitive fs K"
        by (auto simp: list_all_iff)
      with "1.IH"(1) [OF _ JArr that] JArr show ?thesis by simp
    qed
    then have "map (\<lambda>item. removeSensitiveFields item fs) items = items"
      by (simp add: map_idI)
    with JArr show ?thesis by (simp only: rsf_arr)
  next
    case (JObj entries)
    have sub: "removeSensitiveFields v fs = v" if "(k, v) \<in> set entries" for k v
    proof (cases "truthy v \<and> typeof_object v")
      case True
      from that "1.prems" JObj have ns: "\<not> isSensitive fs k" and "plain_object v"
        and "\<forall>K \<in> set (keys_at_any_depth v). \<not> isSensitive fs K"
        by (auto simp: list_all_iff)
      with "1.IH"(2) [OF _ JObj that refl ns True] JObj show ?thesis by simp
    next
      case False
      then show ?thesis by (intro rsf_leaf) blast
    qed
    from "1.prems" JObj have d: "distinct (map fst entries)"
      and np: "''__proto__'' \<notin> fst ` set entries"
      and ns: "\<forall>k \<in> fst ` set entries. \<not> isSensitive fs k"
      by (auto simp: list_all_iff)
    have "fold (\<lambda>(key, val) acc.
              if isSensitive fs key then acc
              else obj_set acc key (removeSensitiveFields val fs)) entries []
          = [] @ map (\<lambda>(key, val). (key, removeSensitiveFields val fs)) entries"
      using d np ns by (intro loop_plain) auto
    also have "\<dots> = entries"
    proof -
      have "map (\<lambda>(key, val). (key, removeSensitiveFields val fs)) entries = entries"
        using sub by (intro map_idI) auto
      then show ?thesis by simp
    qed
    finally show ?thesis using JObj by (simp only: rsf_obj)
  qed (simp_all add: rsf_leaf)
qed


lemma loop_keys:
  "fst ` set (fold (\<lambda>(key, val) acc.
                     if S key then acc else obj_set acc key (h val)) entries acc)
     = fst ` set acc \<union> {k \<in> fst ` set entries. \<not> S k \<and> k \<noteq> ''__proto__''}"
proof (induction entries arbitrary: acc)
  case Nil
  then show ?case by simp
next
  case (Cons e entries)
  obtain key val where e: "e = (key, val)" by (cases e)
  show ?case
  proof (cases "S key")
    case True
    with e Cons.IH [of acc] show ?thesis by auto
  next
    case False
    with e Cons.IH [of "obj_set acc key (h val)"] show ?thesis
      by (auto simp: keys_obj_set)
  qed
qed

lemma loop_exact:
  "distinct (map fst entries) \<Longrightarrow> fst ` set entries \<inter> fst ` set acc = {} \<Longrightarrow>
   fold (\<lambda>(key, val) acc.
           if S key then acc else obj_set acc key (h val)) entries acc
     = acc @ map (\<lambda>(key, val). (key, h val))
               (filter (\<lambda>(key, val). \<not> S key \<and> key \<noteq> ''__proto__'') entries)"
proof (induction entries arbitrary: acc)
  case Nil
  then show ?case by simp
next
  case (Cons e entries)
  obtain key val where e: "e = (key, val)" by (cases e)
  from Cons.prems e have fresh: "key \<notin> fst ` set acc" and d: "distinct (map fst entries)"
    and nk: "key \<notin> fst ` set entries" and dis: "fst ` set entries \<inter> fst ` set acc = {}"
    by auto
  show ?case
  proof (cases "\<not> S key \<and> key \<noteq> ''__proto__''")
    case True
    with fresh have step: "obj_set acc key (h val) = acc @ [(key, h val)]"
      by (simp add: obj_set_def update_fresh)
    from nk dis have "fst ` set entries \<inter> fst ` set (acc @ [(key, h val)]) = {}"
      by auto
    from Cons.IH [OF d this] e True step show ?thesis by simp
  next
    case False
    then have "(if S key then acc else obj_set acc key (h val)) = acc"
      by (auto simp: obj_set_def)
    with Cons.IH [OF d dis] e False show ?thesis by auto
  qed
qed

lemma rsf_obj_keys:
  "\<exists>out. removeSensitiveFields (JObj entries) fs = JObj out
     \<and> fst ` set out = {k \<in> fst ` set entries. \<not> isSensitive fs k \<and> k \<noteq> ''__proto__''}"
  using loop_keys [of "isSensitive fs" "\<lambda>v. removeSensitiveFields v fs" entries "[]"]
  by (simp add: rsf_obj)

lemma rsf_obj_exact:
  "distinct (map fst entries) \<Longrightarrow>
   removeSensitiveFields (JObj entries) fs =
     JObj (map (\<lambda>(key, val). (key, removeSensitiveFields val fs))
            (filter (\<lambda>(key, val). \<not> isSensitive fs key \<and> key \<noteq> ''__proto__'') entries))"
  using loop_exact [of entries "[]" "isSensitive fs" "\<lambda>v. removeSensitiveFields v fs"]
  by (simp add: rsf_obj)

text \<open>
  C1.  For every payload \<open>P\<close> and every list \<open>fs\<close> of sensitive-field fragments
  (the effective list \<open>getSensitiveFields custom\<close> among them): a key whose lowercase
  form contains the lowercase form of a fragment (equality included) occurs at no
  depth of \<open>removeSensitiveFields P fs\<close>, be it inside arrays.  Nothing else is
  removed: the keys of a sanitized object are the keys of the object that match no
  fragment (\<open>__proto__\<close> apart, which an assignment cannot create); an object of
  distinct keys becomes the list of its entries with non-matching keys, in order,
  each value sanitized in turn; every key that survives carries the value it had,
  sanitized in turn, and that value is the very same when it holds no sensitive key;
  a payload that holds no sensitive key at any depth is returned as it is; arrays keep
  their elements, in order, each sanitized; and whatever is neither an object nor an
  array, \<open>null\<close> and \<open>undefined\<close> included, is returned as it is.
\<close>

theorem removeSensitiveFields_removes_sensitive_keys:
  "(\<forall>F \<in> set fs. \<forall>K. (\<exists>p q. toLowerCase K = p @ toLowerCase F @ q) \<longrightarrow>
       K \<notin> set (keys_at_any_depth (removeSensitiveFields P fs)))
   \<and> (\<forall>entries out k v'.
         P = JObj entries \<and> removeSensitiveFields P fs = JObj out \<and> (k, v') \<in> set out \<longrightarrow>
         (\<exists>v. (k, v) \<in> set entries \<and> v' = removeSensitiveFields v fs
              \<and> (plain_object v \<and> (\<forall>K \<in> set (keys_at_any_depth v). \<not> isSensitive fs K)
                   \<longrightarrow> v' = v)))
   \<and> (\<forall>items. P = JArr items \<longrightarrow>
         removeSensitiveFields P fs = JArr (map (\<lambda>item. removeSensitiveFields item fs) items))
   \<and> ((\<forall>items. P \<noteq> JArr items) \<and> (\<forall>entries. P \<noteq> JObj entries) \<longrightarrow>
         removeSensitiveFields P fs = P)
   \<and> (\<forall>K. isSensitive fs K \<longleftrightarrow>
         (\<exists>F \<in> set fs. \<exists>p q. toLowerCase K = p @ toLowerCase F @ q))
   \<and> (\<forall>entries. P = JObj entries \<longrightarrow>
         (\<exists>out. removeSensitiveFields P fs = JObj out
            \<and> fst ` set out =
                {k \<in> fst ` set entries. \<not> isSensitive fs k \<and> k \<noteq> ''__proto__''}))
   \<and> (\<forall>entries. P = JObj entries \<and> distinct (map fst entries) \<longrightarrow>
         removeSensitiveFields P fs =
           JObj (map (\<lambda>(key, val). (key, removeSensitiveFields val fs))
                  (filter (\<lambda>(key, val). \<not> isSensitive fs key \<and> key \<noteq> ''__proto__'') entries)))
   \<and> (plain_object P \<and> (\<forall>K \<in> set (keys_at_any_depth P). \<not> isSensitive fs K) \<longrightarrow>
         removeSensitiveFields P fs = P)"
proof -
  have removal: "\<forall>F \<in> set fs. \<forall>K. (\<exists>p q. toLowerCase K = p @ toLowerCase F @ q) \<longrightarrow>
       K \<notin> set (keys_at_any_depth (removeSensitiveFields P fs))"
  proof (intro ballI allI impI)
    fix F K
    assume F: "F \<in> set fs" and "\<exists>p q. toLowerCase K = p @ toLowerCase F @ q"
    then have "isSensitive fs K" unfolding isSensitive_iff by blast
    then show "K \<notin> set (keys_at_any_depth (removeSensitiveFields P fs))"
      using rsf_no_sensitive_key by blast
  qed
  have survivors: "\<forall>entries out k v'.
         P = JObj entries \<and> removeSensitiveFields P fs = JObj out \<and> (k, v') \<in> set out \<longrightarrow>
         (\<exists>v. (k, v) \<in> set entries \<and> v' = removeSensitiveFields v fs
              \<and> (plain_object v \<and> (\<forall>K \<in> set (keys_at_any_depth v). \<not> isSensitive fs K)
                   \<longrightarrow> v' = v))"
  proof (intro allI impI)
    fix entries out k v'
    assume a: "P = JObj entries \<and> removeSensitiveFields P fs = JObj out \<and> (k, v') \<in> set out"
    then have "removeSensitiveFields (JObj entries) fs = JObj out" and "(k, v') \<in> set out"
      by blast+
    from rsf_entries [OF this] obtain v where v: "(k, v) \<in> set entries"
      and v': "v' = removeSensitiveFields v fs" by blast
    have "plain_object v \<and> (\<forall>K \<in> set (keys_at_any_depth v). \<not> isSensitive fs K) \<longrightarrow> v' = v"
      using v' rsf_plain_identity by simp
    with v v' show "\<exists>v. (k, v) \<in> set entries \<and> v' = removeSensitiveFields v fs
        \<and> (plain_object v \<and> (\<forall>K \<in> set (keys_at_any_depth v). \<not> isSensitive fs K) \<longrightarrow> v' = v)"
      by blast
  qed
  have arrays: "\<forall>items. P = JArr items \<longrightarrow>
         removeSensitiveFields P fs = JArr (map (\<lambda>item. removeSensitiveFields item fs) items)"
    by (simp add: rsf_arr)
  have leaves: "(\<forall>items. P \<noteq> JArr items) \<and> (\<forall>entries. P \<noteq> JObj entries) \<longrightarrow>
         removeSensitiveFields P fs = P"
    by (cases P) (simp_all add: rsf_leaf)
  have matching: "\<forall>K. isSensitive fs K \<longleftrightarrow>
         (\<exists>F \<in> set fs. \<exists>p q. toLowerCase K = p @ toLowerCase F @ q)"
    by (simp only: isSensitive_iff simp_thms)
  have kept: "\<forall>entries. P = JObj entries \<longrightarrow>
         (\<exists>out. removeSensitiveFields P fs = JObj out
            \<and> fst ` set out =
                {k \<in> fst ` set entries. \<not> isSensitive fs k \<and> k \<noteq> ''__proto__''})"
    using rsf_obj_keys by blast
  have exact: "\<forall>entries. P = JObj entries \<and> distinct (map fst entries) \<longrightarrow>
         removeSensitiveFields P fs =
           JObj (map (\<lambda>(key, val). (key, removeSensitiveFields val fs))
                  (filter (\<lambda>(key, val). \<not> isSensitive fs key \<and> key \<noteq> ''__proto__'') entries))"
    using rsf_obj_exact by blast
  have clean: "plain_object P \<and> (\<forall>K \<in> set (keys_at_any_depth P). \<not> isSensitive fs K) \<longrightarrow>
         removeSensitiveFields P fs = P"
    using rsf_plain_identity by blast
  from removal survivors arrays leaves matching kept exact clean show ?thesis
    by (intro conjI)
qed

theorem removeSensitiveFields_removes_sensitive_keys_witness:
  "''userPassword'' \<in> set (keys_at_any_depth
       (JObj [(''id'', JNum 7), (''title'', JStr ''t''),
              (''items'', JArr [JObj [(''userPassword'', JStr ''x''), (''n'', JNull)]])]))
   \<and> ''userPassword'' \<notin> set (keys_at_any_depth
       (removeSensitiveFields
          (JObj [(''id'', JNum 7), (''title'', JStr ''t''),
                 (''items'', JArr [JObj [(''userPassword'', JStr ''x''), (''n'', JNull)]])])
          (getSensitiveFields [])))
   \<and> removeSensitiveFields
          (JObj [(''id'', JNum 7), (''title'', JStr ''t''),
                 (''items'', JArr [JObj [(''userPassword'', JStr ''x''), (''n'', JNull)]])])
          (getSensitiveFields [])
       = JObj [(''id'', JNum 7), (''title'', JStr ''t''),
               (''items'', JArr [JObj [(''n'', JNull)]])]
   \<and> removeSensitiveFields (JObj [(''id'', JNum 7), (''title'', JStr ''t'')]) (getSensitiveFields [])
       = JObj [(''id'', JNum 7), (''title'', JStr ''t'')]
   \<and> removeSensitiveFields (JNum 7) (getSensitiveFields []) = JNum 7"
proof -
  let ?fs = "getSensitiveFields []"
  let ?inner = "JObj [(''userPassword'', JStr ''x''), (''n'', JNull)]"
  let ?P = "JObj [(''id'', JNum 7), (''title'', JStr ''t''), (''items'', JArr [?inner])]"
  note main = removeSensitiveFields_removes_sensitive_keys
  note exact = main [THEN conjunct2, THEN conjunct2, THEN conjunct2, THEN conjunct2,
      THEN conjunct2, THEN conjunct2, THEN conjunct1, rule_format]
  note arrays = main [THEN conjunct2, THEN conjunct2, THEN conjunct1, rule_format]
  note leaves = main [THEN conjunct2, THEN conjunct2, THEN conjunct2, THEN conjunct1, rule_format]
  note clean = main [THEN conjunct2, THEN conjunct2, THEN conjunct2, THEN conjunct2,
      THEN conjunct2, THEN conjunct2, THEN conjunct2, rule_format]
  have F: "''password'' \<in> set ?fs"
    by (simp add: getSensitiveFields_def DEFAULT_SENSITIVE_FIELDS_def)
  have "toLowerCase ''userPassword'' = ''user'' @ toLowerCase ''password'' @ []"
    by (simp add: toLowerCase_def toLowerChar_def)
  then have sub: "\<exists>p q. toLowerCase ''userPassword'' = p @ toLowerCase ''password'' @ q"
    by blast
  have sens: "isSensitive ?fs ''userPassword''" "\<not> isSensitive ?fs ''n''"
    "\<not> isSensitive ?fs ''id''" "\<not> isSensitive ?fs ''title''" "\<not> isSensitive ?fs ''items''"
    by (simp_all add: isSensitive_def getSensitiveFields_def DEFAULT_SENSITIVE_FIELDS_def
          toLowerCase_def toLowerChar_def)
  have gone: "''userPassword'' \<notin> set (keys_at_any_depth (removeSensitiveFields ?P ?fs))"
    by (rule main [THEN conjunct1, rule_format, OF F sub])
  have num: "removeSensitiveFields (JNum 7) ?fs = JNum 7"
    by (rule leaves) simp
  have str: "removeSensitiveFields (JStr ''t'') ?fs = JStr ''t''"
    by (rule leaves) simp
  have nul: "removeSensitiveFields JNull ?fs = JNull"
    by (rule leaves) simp
  have "removeSensitiveFields ?inner ?fs =
      JObj (map (\<lambda>(key, val). (key, removeSensitiveFields val ?fs))
             (filter (\<lambda>(key, val). \<not> isSensitive ?fs key \<and> key \<noteq> ''__proto__'')
                [(''userPassword'', JStr ''x''), (''n'', JNull)]))"
    by (rule exact) simp
  then have inner: "removeSensitiveFields ?inner ?fs = JObj [(''n'', JNull)]"
    by (simp add: sens nul)
  have "removeSensitiveFields (JArr [?inner]) ?fs
      = JArr (map (\<lambda>item. removeSensitiveFields item ?fs) [?inner])"
    by (rule arrays) simp
  then have arr: "removeSensitiveFields (JArr [?inner]) ?fs = JArr [JObj [(''n'', JNull)]]"
    by (simp add: inner)
  have "removeSensitiveFields ?P ?fs =
      JObj (map (\<lambda>(key, val). (key, removeSensitiveFields val ?fs))
             (filter (\<lambda>(key, val). \<not> isSensitive ?fs key \<and> key \<noteq> ''__proto__'')
                [(''id'', JNum 7), (''title'', JStr ''t''), (''items'', JArr [?inner])]))"
    by (rule exact) simp
  then have whole: "removeSensitiveFields ?P ?fs
      = JObj [(''id'', JNum 7), (''title'', JStr ''t''), (''items'', JArr [JObj [(''n'', JNull)]])]"
    by (simp add: sens num str arr)
  have same: "removeSensitiveFields (JObj [(''id'', JNum 7), (''title'', JStr ''t'')]) ?fs
      = JObj [(''id'', JNum 7), (''title'', JStr ''t'')]"
    by (rule clean) (simp add: sens)
  from gone whole same num show ?thesis by simp
qed

section \<open>Populate Normalizer and Query Builder\<close>

lemma obj_get_obj_set:
  "obj_get (obj_set props k v) k' =
     (if k' = k \<and> k \<noteq> ''__proto__'' then v else obj_get props k')"
  by (simp add: obj_get_def obj_set_def update_conv')

lemma obj_get_Nil: "obj_get [] k = JUndefined"
  by (simp add: obj_get_def)





text \<open>
  The claim C7 reads "the limit equals \<open>E.result.count\<close> when present".  The code tests
  truthiness: a count of \<open>0\<close> is present and is passed over for the caller's limit.
\<close>

theorem buildEventQuery_zero_count_counterexample:
  "get_prop_opt (result \<lparr>action = ''afterUpdateMany'',
          model = \<lparr>singularName = ''article'', uid = ''api::article.article''\<rparr>,
          result = JObj [(''count'', JNum 0)],
          params = [(''where'', JObj [(''draft'', JBool True)]), (''limit'', JNum 5)],
          state = []\<rparr>) ''count'' = JNum 0
   \<and> buildEventQuery \<lparr>action = ''afterUpdateMany'',
          model = \<lparr>singularName = ''article'', uid = ''api::article.article''\<rparr>,
          result = JObj [(''count'', JNum 0)],
          params = [(''where'', JObj [(''draft'', JBool True)]), (''limit'', JNum 5)],
          state = []\<rparr>
       = Inr [(''filters'', JObj [(''draft'', JBool True)]), (''limit'', JNum 5)]"
  by (simp add: buildEventQuery_def obj_get_def obj_set_def)

text \<open>
  C7, as amended.  For every lifecycle event \<open>E\<close> (on a bulk-create event, one whose
  result is neither \<open>null\<close> nor \<open>undefined\<close>), \<open>buildEventQuery\<close> returns a query
  whose \<open>filters\<close> are \<open>E.params.where\<close> when that is truthy; whose \<open>limit\<close> is
  \<open>E.result.count\<close> when that is truthy, otherwise \<open>E.params.limit\<close> when that is
  truthy, and is absent otherwise; whose \<open>filters\<close> are replaced by \<open>{id: E.result.ids}\<close>
  when the action is \<open>afterCreateMany\<close>; and whose \<open>fields\<close> are \<open>['id']\<close> when the
  action is \<open>beforeUpdate\<close>.  Each of the three fields is absent unless its rule
  applies, and the query has no other field.
\<close>

theorem buildEventQuery_rules:
  assumes "action ev = ''afterCreateMany'' \<longrightarrow> result ev \<noteq> JUndefined \<and> result ev \<noteq> JNull"
  shows "\<exists>query. buildEventQuery ev = Inr query
     \<and> obj_get query ''filters'' =
         (if action ev = ''afterCreateMany'' then JObj [(''id'', get_prop_opt (result ev) ''ids'')]
          else if truthy (obj_get (params ev) ''where'') then obj_get (params ev) ''where''
          else JUndefined)
     \<and> obj_get query ''limit'' =
         (if truthy (get_prop_opt (result ev) ''count'') then get_prop_opt (result ev) ''count''
          else if truthy (obj_get (params ev) ''limit'') then obj_get (params ev) ''limit''
          else JUndefined)
     \<and> obj_get query ''fields'' =
         (if action ev = ''beforeUpdate'' then JArr [JStr ''id''] else JUndefined)
     \<and> (''filters'' \<in> fst ` set query \<longleftrightarrow>
          action ev = ''afterCreateMany'' \<or> truthy (obj_get (params ev) ''where''))
     \<and> (''limit'' \<in> fst ` set query \<longleftrightarrow>
          truthy (get_prop_opt (result ev) ''count'') \<or> truthy (obj_get (params ev) ''limit''))
     \<and> (''fields'' \<in> fst ` set query \<longleftrightarrow> action ev = ''beforeUpdate'')
     \<and> fst ` set query \<subseteq> {''filters'', ''limit'', ''fields''}"
proof -
  have ids: "get_prop (result ev) ''ids'' = Inr (get_prop_opt (result ev) ''ids'')"
    if "action ev = ''afterCreateMany''"
    using that assms by (cases "result ev") simp_all
  show ?thesis
  proof (cases "action ev = ''afterCreateMany''")
    case True
    with ids show ?thesis
      by (simp add: buildEventQuery_def bindE_def Let_def obj_get_obj_set keys_obj_set obj_get_Nil)
  next
    case False
    then show ?thesis
      by (simp add: buildEventQuery_def bindE_def Let_def obj_get_obj_set keys_obj_set obj_get_Nil)
  qed
qed


theorem buildEventQuery_rules_witness:
  "(result \<lparr>action = ''afterCreateMany'',
          model = \<lparr>singularName = ''article'', uid = ''api::article.article''\<rparr>,
          result = JObj [(''count'', JNum 2), (''ids'', JArr [JNum 11, JNum 12])],
          params = [(''data'', JArr [])], state = []\<rparr> \<noteq> JUndefined)
   \<and> (\<exists>query. buildEventQuery \<lparr>action = ''afterCreateMany'',
          model = \<lparr>singularName = ''article'', uid = ''api::article.article''\<rparr>,
          result = JObj [(''count'', JNum 2), (''ids'', JArr [JNum 11, JNum 12])],
          params = [(''data'', JArr [])], state = []\<rparr> = Inr query
        \<and> obj_get query ''filters'' = JObj [(''id'', JArr [JNum 11, JNum 12])]
        \<and> obj_get query ''limit'' = JNum 2
        \<and> obj_get query ''fields'' = JUndefined
        \<and> ''filters'' \<in> fst ` set query
        \<and> ''limit'' \<in> fst ` set query
        \<and> ''fields'' \<notin> fst ` set query
        \<and> fst ` set query \<subseteq> {''filters'', ''limit'', ''fields''})"
proof -
  let ?ev = "\<lparr>action = ''afterCreateMany'',
          model = \<lparr>singularName = ''article'', uid = ''api::article.article''\<rparr>,
          result = JObj [(''count'', JNum 2), (''ids'', JArr [JNum 11, JNum 12])],
          params = [(''data'', JArr [])], state = []\<rparr>"
  have hyp: "action ?ev = ''afterCreateMany'' \<longrightarrow> result ?ev \<noteq> JUndefined \<and> result ?ev \<noteq> JNull"
    by simp
  have val: "obj_get [(''count'', JNum 2), (''ids'', JArr [JNum 11, JNum 12])] ''count'' = JNum 2"
    "obj_get [(''count'', JNum 2), (''ids'', JArr [JNum 11, JNum 12])] ''ids'' = JArr [JNum 11, JNum 12]"
    by (simp_all add: obj_get_def)
  show ?thesis
    using buildEventQuery_rules [OF hyp] by (simp add: val)
qed

section \<open>Commit Scheduler\<close>

lemma getTransactionCtx_cached:
  "transactionCtx w = Some ctx \<Longrightarrow> getTransactionCtx h w = (ctx, w)"
  by (simp add: getTransactionCtx_def)

lemma getTransactionCtx_resolves:
  "transactionCtx w = None \<Longrightarrow> requireResolves h \<Longrightarrow>
   getTransactionCtx h w = (StoreCtx, w\<lparr>transactionCtx := Some StoreCtx\<rparr>)"
  by (simp add: getTransactionCtx_def)

lemma getTransactionCtx_fallback:
  "transactionCtx w = None \<Longrightarrow> \<not> requireResolves h \<Longrightarrow>
   getTransactionCtx h w =
     (FallbackCtx,
      w\<lparr>logs := logs w @ [(LogWarn, ''[@strapi-community/plugin-io] Unable to access transaction context:'')],
        transactionCtx := Some FallbackCtx\<rparr>)"
  by (simp add: getTransactionCtx_def log_at_def)

lemma getTransactionCtx_keeps:
  "activeTx (snd (getTransactionCtx h w)) = activeTx w"
  "timers (snd (getTransactionCtx h w)) = timers w"
  "clock (snd (getTransactionCtx h w)) = clock w"
  "published (snd (getTransactionCtx h w)) = published w"
  "storeCalls (snd (getTransactionCtx h w)) = storeCalls w"
  by (simp_all add: getTransactionCtx_def log_at_def split: option.splits)

lemma schedule_in_transaction:
  assumes "getTransactionCtx h w = (ctx, w1)" and "ctx_get ctx w1"
  shows "\<exists>ls. activeTx w = Some ls \<and> ctx = StoreCtx \<and>
     scheduleAfterTransaction h cb d w = w1\<lparr>activeTx := Some (ls @ [(cb, d)])\<rparr>"
proof -
  from assms(2) have ctx: "ctx = StoreCtx" and "activeTx w1 \<noteq> None"
    by (cases ctx; simp add: ctx_get_def)+
  moreover from getTransactionCtx_keeps(1) [of h w] assms(1) have "activeTx w1 = activeTx w"
    by simp
  ultimately obtain ls where ls: "activeTx w = Some ls" "activeTx w1 = Some ls" by auto
  with assms ctx show ?thesis
    by (simp add: scheduleAfterTransaction_def ctx_onCommit_def)
qed

lemma schedule_no_transaction:
  assumes "getTransactionCtx h w = (ctx, w1)" and "\<not> ctx_get ctx w1"
  shows "scheduleAfterTransaction h cb d w = w1\<lparr>timers := timers w @ [(clock w + d, cb)]\<rparr>"
  using assms getTransactionCtx_keeps(2,3) [of h w]
  by (simp add: scheduleAfterTransaction_def runner_def setTimeout_def)

lemma same_schedule_refl: "same_schedule w w"
  by (simp add: same_schedule_def)

lemma same_schedule_trans: "same_schedule a b \<Longrightarrow> same_schedule b c \<Longrightarrow> same_schedule a c"
  by (simp add: same_schedule_def)

lemma same_schedule_log_at: "same_schedule w (log_at lvl msg w)"
  by (simp add: same_schedule_def log_at_def)

lemma same_schedule_io_emit: "same_schedule w (io_emit arg w)"
  by (simp add: same_schedule_def io_emit_def)

lemma same_schedule_io_raw: "same_schedule w (io_raw arg w)"
  by (simp add: same_schedule_def io_raw_def)

lemma same_schedule_storeCalls: "same_schedule w (w\<lparr>storeCalls := c\<rparr>)"
  by (simp add: same_schedule_def)

lemma same_schedule_emit_rows: "same_schedule w (fold (\<lambda>r. io_emit (f r)) rs w)"
proof (induction rs arbitrary: w)
  case Nil
  show ?case by (simp add: same_schedule_refl)
next
  case (Cons r rs)
  from same_schedule_trans [OF same_schedule_io_emit Cons.IH]
  show ?case by simp
qed

lemma same_schedule_fetchWithPopulate:
  "same_schedule w (snd (fetchWithPopulate h u documentId config w))"
proof (cases "truthy documentId")
  case False
  then show ?thesis by (simp add: fetchWithPopulate_def same_schedule_log_at)
next
  case True
  let ?arg = "JObj [(''documentId'', documentId), (''populate'', normalizePopulate config)]"
  let ?w1 = "w\<lparr>storeCalls := storeCalls w @ [FindOne u ?arg]\<rparr>"
  have w1: "same_schedule w ?w1" by (rule same_schedule_storeCalls)
  show ?thesis
  proof (cases "findOne h u ?arg")
    case (Inl e)
    with True have "snd (fetchWithPopulate h u documentId config w)
        = log_at LogDebug (''[socket.io] Error fetching with populate for '' @ u @ '':'') ?w1"
      by (simp add: fetchWithPopulate_def Let_def)
    with same_schedule_trans [OF w1 same_schedule_log_at] show ?thesis by simp
  next
    case (Inr r)
    with True have "snd (fetchWithPopulate h u documentId config w) = ?w1"
      by (simp add: fetchWithPopulate_def Let_def)
    with w1 show ?thesis by simp
  qed
qed

lemma same_schedule_emit_single_try:
  "same_schedule w (snd (emit_single_try h eventType ct documentId modelInfo ev w))"
proof (cases "hasPopulate ct \<and> truthy documentId")
  case False
  then show ?thesis
    by (cases "json_clone (result ev)")
       (auto simp: emit_single_try_def same_schedule_refl same_schedule_io_emit)
next
  case True
  obtain fetched w1 where f: "fetchWithPopulate h (ct_uid ct) documentId (populateConfig ct) w = (fetched, w1)"
    by (cases "fetchWithPopulate h (ct_uid ct) documentId (populateConfig ct) w")
  with same_schedule_fetchWithPopulate [of w h "ct_uid ct" documentId "populateConfig ct"]
  have w1: "same_schedule w w1" by simp
  have "same_schedule w1 (snd (emit_single_try h eventType ct documentId modelInfo ev w))"
    using True f
    by (cases "json_clone (result ev)")
       (simp_all add: emit_single_try_def same_schedule_refl same_schedule_io_emit)
  with w1 show ?thesis by (rule same_schedule_trans)
qed

lemma same_schedule_emit_bulk_try:
  "same_schedule w (snd (emit_bulk_try h eventType ct query modelInfo w))"
proof -
  let ?w1 = "w\<lparr>storeCalls := storeCalls w @ [FindMany (ct_uid ct) query]\<rparr>"
  have w1: "same_schedule w ?w1" by (rule same_schedule_storeCalls)
  have "same_schedule ?w1 (snd (emit_bulk_try h eventType ct query modelInfo w))"
  proof (cases "findMany h (ct_uid ct) query")
    case (Inl e)
    then show ?thesis by (simp add: emit_bulk_try_def same_schedule_refl)
  next
    case (Inr records)
    then show ?thesis
      by (cases records)
         (simp_all add: emit_bulk_try_def same_schedule_refl same_schedule_emit_rows)
  qed
  with w1 show ?thesis by (rule same_schedule_trans)
qed

lemma same_schedule_run_callback: "same_schedule w (run_callback h cb w)"
proof (cases cb)
  case (EmitSingle eventType ct documentId modelInfo ev)
  obtain err w' where t: "emit_single_try h eventType ct documentId modelInfo ev w = (err, w')"
    by (cases "emit_single_try h eventType ct documentId modelInfo ev w")
  with same_schedule_emit_single_try [of w h eventType ct documentId modelInfo ev]
  have "same_schedule w w'" by simp
  from this same_schedule_trans [OF this same_schedule_log_at] EmitSingle t show ?thesis
    by (cases err) simp_all
next
  case (EmitBulk eventType ct query modelInfo)
  obtain err w' where t: "emit_bulk_try h eventType ct query modelInfo w = (err, w')"
    by (cases "emit_bulk_try h eventType ct query modelInfo w")
  with same_schedule_emit_bulk_try [of w h eventType ct query modelInfo]
  have "same_schedule w w'" by simp
  from this same_schedule_trans [OF this same_schedule_log_at] EmitBulk t show ?thesis
    by (cases err) simp_all
next
  case (EmitDelete ct modelInfo deleteData)
  then show ?thesis by (simp add: same_schedule_io_raw)
qed


lemma fire_due_idle: "timers v = [] \<Longrightarrow> fire_due h v = v"
  by (simp add: fire_due_def)

lemma fire_due_single:
  "timers v = [(t, cb)] \<Longrightarrow>
   fire_due h v = (if t \<le> clock v then run_callback h cb (v\<lparr>timers := []\<rparr>) else v)"
  by (simp add: fire_due_def)

lemma advance_single:
  "timers v = [(t, cb)] \<Longrightarrow>
   advance h e v =
     (if t \<le> clock v + e then run_callback h cb (v\<lparr>clock := clock v + e, timers := []\<rparr>)
      else v\<lparr>clock := clock v + e\<rparr>)"
  by (simp add: advance_def fire_due_single)

lemma advance_idle: "timers v = [] \<Longrightarrow> advance h e v = v\<lparr>clock := clock v + e\<rparr>"
  by (simp add: advance_def fire_due_idle)

lemma commit_tx_listeners:
  "activeTx v = Some (ls @ [(cb, d)]) \<Longrightarrow>
   commit_tx v = setTimeout cb d (commit_tx (v\<lparr>activeTx := Some ls\<rparr>))"
  by (simp add: commit_tx_def runner_def)

text \<open>
  C2.  A callback scheduled while \<open>ctx.get()\<close> answers an open transaction is
  registered as a commit listener of that transaction and as nothing else: no timer
  is set, nothing is published and nothing is read.  When the transaction commits, at
  whatever time \<open>t\<close>, the commit sets one timer for the callback, due \<open>d\<close> after
  \<open>t\<close>; with nothing else pending, the callback has not run while less than \<open>d\<close>
  has passed since the commit, has run once \<open>d\<close> has passed, and does not run
  again.  When the transaction rolls back, the world is the one in which the callback
  was never scheduled: it never runs.
\<close>

theorem scheduleAfterTransaction_commit_listener:
  assumes "getTransactionCtx h w = (ctx, w1)" and "ctx_get ctx w1"
  shows "\<exists>ls. activeTx w = Some ls
     \<and> scheduleAfterTransaction h cb d w = w1\<lparr>activeTx := Some (ls @ [(cb, d)])\<rparr>
     \<and> timers (scheduleAfterTransaction h cb d w) = timers w
     \<and> published (scheduleAfterTransaction h cb d w) = published w
     \<and> storeCalls (scheduleAfterTransaction h cb d w) = storeCalls w
     \<and> (\<forall>t. commit_tx ((scheduleAfterTransaction h cb d w)\<lparr>clock := t\<rparr>)
              = setTimeout cb d (commit_tx (w1\<lparr>clock := t\<rparr>)))
     \<and> rollback_tx (scheduleAfterTransaction h cb d w) = rollback_tx w1
     \<and> (ls = [] \<and> timers w = [] \<longrightarrow>
          (\<forall>t e. advance h e (commit_tx ((scheduleAfterTransaction h cb d w)\<lparr>clock := t\<rparr>))
                = (if d \<le> e
                   then run_callback h cb (w1\<lparr>activeTx := None, clock := t + e\<rparr>)
                   else w1\<lparr>activeTx := None, clock := t + e, timers := [(t + d, cb)]\<rparr>))
          \<and> (\<forall>t e e'. d \<le> e \<longrightarrow>
                advance h e' (advance h e
                    (commit_tx ((scheduleAfterTransaction h cb d w)\<lparr>clock := t\<rparr>)))
                = (run_callback h cb (w1\<lparr>activeTx := None, clock := t + e\<rparr>))
                    \<lparr>clock := t + e + e'\<rparr>))"
proof -
  from schedule_in_transaction [OF assms] obtain ls where ls: "activeTx w = Some ls"
    and s: "scheduleAfterTransaction h cb d w = w1\<lparr>activeTx := Some (ls @ [(cb, d)])\<rparr>"
    by blast
  from assms(1) getTransactionCtx_keeps [of h w]
  have keep: "activeTx w1 = activeTx w" "timers w1 = timers w" "published w1 = published w"
    "storeCalls w1 = storeCalls w"
    by simp_all
  have w1: "w1\<lparr>activeTx := Some ls\<rparr> = w1" using keep ls by simp
  have commit: "commit_tx ((scheduleAfterTransaction h cb d w)\<lparr>clock := t\<rparr>)
      = setTimeout cb d (commit_tx (w1\<lparr>clock := t\<rparr>))" for t
  proof -
    have "commit_tx (w1\<lparr>activeTx := Some (ls @ [(cb, d)]), clock := t\<rparr>)
        = setTimeout cb d (commit_tx (w1\<lparr>activeTx := Some (ls @ [(cb, d)]), clock := t,
                                         activeTx := Some ls\<rparr>))"
      by (rule commit_tx_listeners) simp
    also have "w1\<lparr>activeTx := Some (ls @ [(cb, d)]), clock := t, activeTx := Some ls\<rparr>
        = w1\<lparr>clock := t\<rparr>"
      using keep ls by simp
    finally show ?thesis by (simp add: s)
  qed
  have rollback: "rollback_tx (scheduleAfterTransaction h cb d w) = rollback_tx w1"
    by (simp add: s rollback_tx_def)
  have quiet: "commit_tx ((scheduleAfterTransaction h cb d w)\<lparr>clock := t\<rparr>)
      = w1\<lparr>activeTx := None, clock := t, timers := [(t + d, cb)]\<rparr>"
    if "ls = []" "timers w = []" for t
  proof -
    from that keep ls have "commit_tx (w1\<lparr>clock := t\<rparr>) = w1\<lparr>activeTx := None, clock := t\<rparr>"
      by (simp add: commit_tx_def)
    with that keep show ?thesis
      by (simp only: commit) (simp add: setTimeout_def)
  qed
  have run: "advance h e (commit_tx ((scheduleAfterTransaction h cb d w)\<lparr>clock := t\<rparr>))
      = (if d \<le> e
         then run_callback h cb (w1\<lparr>activeTx := None, clock := t + e\<rparr>)
         else w1\<lparr>activeTx := None, clock := t + e, timers := [(t + d, cb)]\<rparr>)"
    if q: "ls = []" "timers w = []" for t e
  proof -
    have e: "w1\<lparr>activeTx := None, clock := t + e, timers := []\<rparr>
        = w1\<lparr>activeTx := None, clock := t + e\<rparr>"
      using keep q by simp
    show ?thesis
      by (simp add: quiet [OF q] advance_single e)
  qed
  have once: "advance h e' (advance h e
        (commit_tx ((scheduleAfterTransaction h cb d w)\<lparr>clock := t\<rparr>)))
      = (run_callback h cb (w1\<lparr>activeTx := None, clock := t + e\<rparr>))\<lparr>clock := t + e + e'\<rparr>"
    if q: "ls = []" "timers w = []" and de: "d \<le> e" for t e e'
  proof -
    let ?v = "run_callback h cb (w1\<lparr>activeTx := None, clock := t + e\<rparr>)"
    from same_schedule_run_callback [of "w1\<lparr>activeTx := None, clock := t + e\<rparr>" h cb] keep q
    have "timers ?v = []" and "clock ?v = t + e"
      by (simp_all add: same_schedule_def)
    then have "advance h e' ?v = ?v\<lparr>clock := t + e + e'\<rparr>"
      by (simp add: advance_idle)
    with run [OF q] de show ?thesis by simp
  qed
  from ls s keep commit rollback run once show ?thesis
    by (intro exI [of _ ls]) (simp add: s)
qed


theorem scheduleAfterTransaction_commit_listener_witness:
  "ctx_get StoreCtx ((begin_tx initial_world)\<lparr>transactionCtx := Some StoreCtx\<rparr>)
   \<and> timers (scheduleAfterTransaction quiet_host
                (EmitDelete article article_model (JObj [(''id'', JNum 1), (''documentId'', JStr ''d1'')]))
                100 (begin_tx initial_world)) = []
   \<and> published (advance quiet_host 100 (commit_tx
         ((scheduleAfterTransaction quiet_host
                (EmitDelete article article_model (JObj [(''id'', JNum 1), (''documentId'', JStr ''d1'')]))
                100 (begin_tx initial_world))\<lparr>clock := 7\<rparr>)))
       = [IoRaw (JObj [(''event'', JStr ''article:delete''),
                       (''data'', JObj [(''id'', JNum 1), (''documentId'', JStr ''d1'')])])]
   \<and> published (advance quiet_host 99 (commit_tx
         ((scheduleAfterTransaction quiet_host
                (EmitDelete article article_model (JObj [(''id'', JNum 1), (''documentId'', JStr ''d1'')]))
                100 (begin_tx initial_world))\<lparr>clock := 7\<rparr>))) = []
   \<and> rollback_tx (scheduleAfterTransaction quiet_host
                (EmitDelete article article_model (JObj [(''id'', JNum 1), (''documentId'', JStr ''d1'')]))
                100 (begin_tx initial_world))
       = initial_world\<lparr>transactionCtx := Some StoreCtx\<rparr>"
proof -
  let ?w = "begin_tx initial_world"
  let ?w1 = "?w\<lparr>transactionCtx := Some StoreCtx\<rparr>"
  let ?cb = "EmitDelete article article_model (JObj [(''id'', JNum 1), (''documentId'', JStr ''d1'')])"
  have g: "getTransactionCtx quiet_host ?w = (StoreCtx, ?w1)"
    by (simp add: getTransactionCtx_def begin_tx_def initial_world_def quiet_host_def)
  have c: "ctx_get StoreCtx ?w1"
    by (simp add: ctx_get_def begin_tx_def)
  from scheduleAfterTransaction_commit_listener [OF g c, of ?cb 100]
  obtain ls where ls: "activeTx ?w = Some ls"
    and t: "timers (scheduleAfterTransaction quiet_host ?cb 100 ?w) = timers ?w"
    and r: "rollback_tx (scheduleAfterTransaction quiet_host ?cb 100 ?w) = rollback_tx ?w1"
    and a: "ls = [] \<and> timers ?w = [] \<longrightarrow>
          (\<forall>t e. advance quiet_host e (commit_tx ((scheduleAfterTransaction quiet_host ?cb 100 ?w)\<lparr>clock := t\<rparr>))
                = (if 100 \<le> e
                   then run_callback quiet_host ?cb (?w1\<lparr>activeTx := None, clock := t + e\<rparr>)
                   else ?w1\<lparr>activeTx := None, clock := t + e, timers := [(t + 100, ?cb)]\<rparr>))"
    by blast
  from ls have "ls = []" and "timers ?w = []"
    by (simp_all add: begin_tx_def initial_world_def)
  with a have adv: "advance quiet_host e (commit_tx ((scheduleAfterTransaction quiet_host ?cb 100 ?w)\<lparr>clock := t\<rparr>))
                = (if 100 \<le> e
                   then run_callback quiet_host ?cb (?w1\<lparr>activeTx := None, clock := t + e\<rparr>)
                   else ?w1\<lparr>activeTx := None, clock := t + e, timers := [(t + 100, ?cb)]\<rparr>)" for t e
    by blast
  show ?thesis
    by (simp add: c t r adv)
       (simp add: begin_tx_def initial_world_def rollback_tx_def io_raw_def article_model_def)
qed


lemma schedule_fallback_cached:
  "transactionCtx w = Some FallbackCtx \<Longrightarrow>
   scheduleAfterTransaction h cb d w = w\<lparr>timers := timers w @ [(clock w + d, cb)]\<rparr>"
  by (simp add: scheduleAfterTransaction_def getTransactionCtx_def ctx_get_def runner_def
        setTimeout_def)

lemma schedule_fallback_first:
  "transactionCtx w = None \<Longrightarrow> \<not> requireResolves h \<Longrightarrow>
   scheduleAfterTransaction h cb d w =
     w\<lparr>logs := logs w @ [(LogWarn, ''[@strapi-community/plugin-io] Unable to access transaction context:'')],
       transactionCtx := Some FallbackCtx,
       timers := timers w @ [(clock w + d, cb)]\<rparr>"
  by (simp add: scheduleAfterTransaction_def getTransactionCtx_def ctx_get_def runner_def
        setTimeout_def log_at_def)

lemma schedule_fallback_rest:
  "transactionCtx w = Some FallbackCtx \<Longrightarrow>
   fold (\<lambda>(cb, d). scheduleAfterTransaction h cb d) calls w =
     w\<lparr>timers := timers w @ map (\<lambda>(cb, d). (clock w + d, cb)) calls\<rparr>"
proof (induction calls arbitrary: w)
  case Nil
  then show ?case by simp
next
  case (Cons c calls)
  obtain cb d where c: "c = (cb, d)" by (cases c)
  let ?w = "w\<lparr>timers := timers w @ [(clock w + d, cb)]\<rparr>"
  from Cons.prems have "transactionCtx ?w = Some FallbackCtx" by simp
  from Cons.IH [OF this] Cons.prems c show ?case
    by (simp add: schedule_fallback_cached)
qed

text \<open>
  C6.  When \<open>ctx.get()\<close> answers no transaction, the scheduler sets the timer at once:
  the callback runs when its own delay has passed.  When the transaction context
  cannot be loaded, every callback of any series of calls has its timer set at once,
  whether a transaction is open or not, none is dropped, and the warning is logged
  one time, by the first call: the fallback is cached.
\<close>

theorem scheduleAfterTransaction_never_drops:
  "(getTransactionCtx h w = (ctx, w1) \<and> \<not> ctx_get ctx w1 \<longrightarrow>
      scheduleAfterTransaction h cb d w = setTimeout cb d w1
      \<and> timers (scheduleAfterTransaction h cb d w) = timers w @ [(clock w + d, cb)]
      \<and> (timers w = [] \<longrightarrow>
           (\<forall>e. advance h e (scheduleAfterTransaction h cb d w)
                = (if d \<le> e then run_callback h cb (w1\<lparr>clock := clock w + e\<rparr>)
                   else w1\<lparr>clock := clock w + e, timers := [(clock w + d, cb)]\<rparr>))))
   \<and> (\<not> requireResolves h \<and> transactionCtx w = None \<and> calls \<noteq> [] \<longrightarrow>
        fold (\<lambda>(cb, d). scheduleAfterTransaction h cb d) calls w
          = w\<lparr>logs := logs w @ [(LogWarn, ''[@strapi-community/plugin-io] Unable to access transaction context:'')],
              transactionCtx := Some FallbackCtx,
              timers := timers w @ map (\<lambda>(cb, d). (clock w + d, cb)) calls\<rparr>)"
proof (intro conjI impI)
  assume a: "getTransactionCtx h w = (ctx, w1) \<and> \<not> ctx_get ctx w1"
  then have g: "getTransactionCtx h w = (ctx, w1)" and n: "\<not> ctx_get ctx w1" by simp_all
  from g getTransactionCtx_keeps [of h w]
  have keep: "timers w1 = timers w" "clock w1 = clock w" by simp_all
  from schedule_no_transaction [OF g n]
  have s: "scheduleAfterTransaction h cb d w = w1\<lparr>timers := timers w @ [(clock w + d, cb)]\<rparr>" .
  with keep show "scheduleAfterTransaction h cb d w = setTimeout cb d w1"
    by (simp add: setTimeout_def)
  from s show "timers (scheduleAfterTransaction h cb d w) = timers w @ [(clock w + d, cb)]"
    by simp
  assume q: "timers w = []"
  show "\<forall>e. advance h e (scheduleAfterTransaction h cb d w)
                = (if d \<le> e then run_callback h cb (w1\<lparr>clock := clock w + e\<rparr>)
                   else w1\<lparr>clock := clock w + e, timers := [(clock w + d, cb)]\<rparr>)"
  proof
    fix e
    from q keep have e: "w1\<lparr>clock := clock w + e, timers := []\<rparr> = w1\<lparr>clock := clock w + e\<rparr>"
      by simp
    from q keep show "advance h e (scheduleAfterTransaction h cb d w)
        = (if d \<le> e then run_callback h cb (w1\<lparr>clock := clock w + e\<rparr>)
           else w1\<lparr>clock := clock w + e, timers := [(clock w + d, cb)]\<rparr>)"
      by (simp add: s advance_single e)
  qed
next
  assume a: "\<not> requireResolves h \<and> transactionCtx w = None \<and> calls \<noteq> []"
  then obtain cb d rest where calls: "calls = (cb, d) # rest"
    by (cases calls) auto
  let ?w = "w\<lparr>logs := logs w @ [(LogWarn, ''[@strapi-community/plugin-io] Unable to access transaction context:'')],
       transactionCtx := Some FallbackCtx,
       timers := timers w @ [(clock w + d, cb)]\<rparr>"
  from a have first: "scheduleAfterTransaction h cb d w = ?w"
    by (simp add: schedule_fallback_first)
  have "transactionCtx ?w = Some FallbackCtx" by simp
  from schedule_fallback_rest [OF this, of h rest] first calls
  show "fold (\<lambda>(cb, d). scheduleAfterTransaction h cb d) calls w
          = w\<lparr>logs := logs w @ [(LogWarn, ''[@strapi-community/plugin-io] Unable to access transaction context:'')],
              transactionCtx := Some FallbackCtx,
              timers := timers w @ map (\<lambda>(cb, d). (clock w + d, cb)) calls\<rparr>"
    by simp
qed


theorem scheduleAfterTransaction_never_drops_witness:
  "\<not> ctx_get StoreCtx (initial_world\<lparr>transactionCtx := Some StoreCtx\<rparr>)
   \<and> timers (scheduleAfterTransaction quiet_host
         (EmitDelete article article_model (JObj [(''id'', JNum 1), (''documentId'', JNum 1)])) 100
         initial_world)
       = [(100, EmitDelete article article_model (JObj [(''id'', JNum 1), (''documentId'', JNum 1)]))]
   \<and> \<not> requireResolves bare_host
   \<and> fold (\<lambda>(cb, d). scheduleAfterTransaction bare_host cb d)
         [(EmitDelete article article_model (JObj [(''id'', JNum 1), (''documentId'', JNum 1)]), 100),
          (EmitDelete article article_model (JObj [(''id'', JNum 2), (''documentId'', JNum 2)]), 100)]
         (begin_tx initial_world)
       = (begin_tx initial_world)
           \<lparr>logs := [(LogWarn, ''[@strapi-community/plugin-io] Unable to access transaction context:'')],
            transactionCtx := Some FallbackCtx,
            timers := [(100, EmitDelete article article_model (JObj [(''id'', JNum 1), (''documentId'', JNum 1)])),
                       (100, EmitDelete article article_model (JObj [(''id'', JNum 2), (''documentId'', JNum 2)]))]\<rparr>"
proof -
  let ?cb1 = "EmitDelete article article_model (JObj [(''id'', JNum 1), (''documentId'', JNum 1)])"
  let ?cb2 = "EmitDelete article article_model (JObj [(''id'', JNum 2), (''documentId'', JNum 2)])"
  let ?w1 = "initial_world\<lparr>transactionCtx := Some StoreCtx\<rparr>"
  note main = scheduleAfterTransaction_never_drops
  have n: "\<not> ctx_get StoreCtx ?w1"
    by (simp add: ctx_get_def initial_world_def)
  have g: "getTransactionCtx quiet_host initial_world = (StoreCtx, ?w1)"
    by (simp add: getTransactionCtx_def initial_world_def quiet_host_def)
  from g n have "getTransactionCtx quiet_host initial_world = (StoreCtx, ?w1) \<and> \<not> ctx_get StoreCtx ?w1"
    by (rule conjI)
  from main [where cb = ?cb1 and d = 100, THEN conjunct1, rule_format, OF this]
  have "timers (scheduleAfterTransaction quiet_host ?cb1 100 initial_world)
      = timers initial_world @ [(clock initial_world + 100, ?cb1)]"
    by (elim conjE)
  then have t: "timers (scheduleAfterTransaction quiet_host ?cb1 100 initial_world) = [(100, ?cb1)]"
    by (simp add: initial_world_def)
  have b: "\<not> requireResolves bare_host" by (simp add: bare_host_def)
  have "\<not> requireResolves bare_host \<and> transactionCtx (begin_tx initial_world) = None
      \<and> [(?cb1, 100::nat), (?cb2, 100)] \<noteq> []"
    by (simp add: bare_host_def begin_tx_def initial_world_def)
  from main [THEN conjunct2, rule_format, OF this]
  have f: "fold (\<lambda>(cb, d). scheduleAfterTransaction bare_host cb d) [(?cb1, 100), (?cb2, 100)]
         (begin_tx initial_world)
       = (begin_tx initial_world)
           \<lparr>logs := [(LogWarn, ''[@strapi-community/plugin-io] Unable to access transaction context:'')],
            transactionCtx := Some FallbackCtx,
            timers := [(100, ?cb1), (100, ?cb2)]\<rparr>"
    by (simp add: begin_tx_def initial_world_def)
  from n t b f show ?thesis by (intro conjI)
qed

section \<open>Emission Coordinator\<close>

lemma subscriber_keys:
  "fst ` set (subscriber ct) \<subseteq>
     {''afterCreate'', ''afterCreateMany'', ''afterUpdate'', ''beforeUpdateMany'',
      ''afterUpdateMany'', ''afterDelete''}"
  by (auto simp: subscriber_def)

lemma subscriber_no_handler:
  "a \<notin> {''afterCreate'', ''afterCreateMany'', ''afterUpdate'', ''beforeUpdateMany'',
          ''afterUpdateMany'', ''afterDelete''} \<Longrightarrow> map_of (subscriber ct) a = None"
  using subscriber_keys [of ct] by (auto simp: map_of_eq_None_iff)

lemma dispatch_no_handler:
  "\<forall>ct \<in> set contentTypes. map_of (subscriber ct) (action ev) = None \<Longrightarrow>
   dispatch h (bootstrapLifecycles contentTypes) ev w = Inr (ev, w)"
  by (induction contentTypes) (simp_all add: bootstrapLifecycles_def)

text \<open>
  C10.  Whatever the configuration of a content type, \<open>delete\<close> among its actions or
  not, its subscriber defines neither \<open>beforeDeleteMany\<close> nor \<open>afterDeleteMany\<close>;
  the dispatch of a bulk-delete event over all subscribers therefore runs no handler
  and leaves the world as it was: nothing is scheduled, read or published.
\<close>

theorem no_bulk_delete_handler:
  "''beforeDeleteMany'' \<notin> fst ` set (subscriber ct)
   \<and> ''afterDeleteMany'' \<notin> fst ` set (subscriber ct)
   \<and> (action ev = ''beforeDeleteMany'' \<or> action ev = ''afterDeleteMany'' \<longrightarrow>
        dispatch h (bootstrapLifecycles contentTypes) ev w = Inr (ev, w))"
proof (intro conjI impI)
  show "''beforeDeleteMany'' \<notin> fst ` set (subscriber ct)"
    using subscriber_keys [of ct] by auto
  show "''afterDeleteMany'' \<notin> fst ` set (subscriber ct)"
    using subscriber_keys [of ct] by auto
  assume "action ev = ''beforeDeleteMany'' \<or> action ev = ''afterDeleteMany''"
  then have "\<forall>ct \<in> set contentTypes. map_of (subscriber ct) (action ev) = None"
    by (auto intro!: subscriber_no_handler)
  then show "dispatch h (bootstrapLifecycles contentTypes) ev w = Inr (ev, w)"
    by (rule dispatch_no_handler)
qed

theorem no_bulk_delete_handler_witness:
  "map fst (subscriber \<lparr>ct_uid = ''api::article.article'', ct_actions = Some [''delete''],
                         ct_populate = JUndefined\<rparr>) = [''afterDelete'']
   \<and> dispatch quiet_host
        (bootstrapLifecycles [\<lparr>ct_uid = ''api::article.article'', ct_actions = Some [''delete''],
                                ct_populate = JUndefined\<rparr>])
        \<lparr>action = ''afterDeleteMany'', model = article_model,
         result = JObj [(''count'', JNum 3)], params = [(''where'', JObj [])], state = []\<rparr>
        initial_world
      = Inr (\<lparr>action = ''afterDeleteMany'', model = article_model,
              result = JObj [(''count'', JNum 3)], params = [(''where'', JObj [])], state = []\<rparr>,
             initial_world)"
proof -
  let ?ev = "\<lparr>action = ''afterDeleteMany'', model = article_model,
         result = JObj [(''count'', JNum 3)], params = [(''where'', JObj [])], state = []\<rparr>"
  have a: "action ?ev = ''beforeDeleteMany'' \<or> action ?ev = ''afterDeleteMany''" by simp
  note main = no_bulk_delete_handler [THEN conjunct2, THEN conjunct2, rule_format, OF a]
  have "map fst (subscriber \<lparr>ct_uid = ''api::article.article'', ct_actions = Some [''delete''],
                         ct_populate = JUndefined\<rparr>) = [''afterDelete'']"
    by (simp add: subscriber_def action_enabled_def)
  with main show ?thesis by simp
qed

text \<open>
  C3 fails on \<open>afterCreateMany\<close>.  The handler calls \<open>buildEventQuery\<close> first,
  which reads \<open>event.result.ids\<close> with no guard: on an event whose result is
  \<open>null\<close> or \<open>undefined\<close> the read throws a TypeError, the async handler rejects,
  and the rejection reaches the store's dispatch, that is, the write.  Nothing is
  logged.  The handler \<open>afterCreate\<close> on the same result logs at debug level and
  returns.
\<close>

theorem afterCreateMany_rejects_on_missing_result:
  "afterCreateMany h ct
      \<lparr>action = ''afterCreateMany'', model = m, result = JNull, params = ps, state = st\<rparr> w
     = Inl TypeError
   \<and> afterCreateMany h ct
      \<lparr>action = ''afterCreateMany'', model = m, result = JUndefined, params = ps, state = st\<rparr> w
     = Inl TypeError
   \<and> dispatch h (bootstrapLifecycles [article])
      \<lparr>action = ''afterCreateMany'', model = article_model, result = JNull, params = ps, state = st\<rparr> w
     = Inl TypeError
   \<and> afterCreate h ct
      \<lparr>action = ''afterCreate'', model = m, result = JNull, params = ps, state = st\<rparr> w
     = Inr (\<lparr>action = ''afterCreate'', model = m, result = JNull, params = ps, state = st\<rparr>,
            log_at LogDebug (''[socket.io] No result data in afterCreate for '' @ ct_uid ct) w)"
  by (simp add: afterCreateMany_def buildEventQuery_def bindE_def Let_def
        bootstrapLifecycles_def subscriber_def action_enabled_def article_def article_model_def
        afterCreate_def single_handler_def)

lemma json_value_shaped: "json_shaped v \<Longrightarrow> json_value v = v"
proof (induction v rule: json_value.induct)
  case (1 items)
  then have "map (\<lambda>item. if item = JUndefined then JNull else json_value item) items = items"
    by (intro map_idI) (auto simp: list_all_iff)
  then show ?case by simp
next
  case (2 props)
  from "2.prems" have f: "filter (\<lambda>(key, v). v \<noteq> JUndefined) props = props"
    by (intro filter_True) (auto simp: list_all_iff)
  from "2.prems" "2.IH" have "map (\<lambda>(key, v). (key, json_value v)) props = props"
    by (intro map_idI) (auto simp: list_all_iff f)
  with f show ?case by simp
qed simp_all

lemma json_clone_truthy: "truthy v \<Longrightarrow> json_clone v = Inr (json_value v)"
  by (cases v) (simp_all add: json_clone_def)




text \<open>
  C8.  On an \<open>afterUpdate\<close> or \<open>afterCreate\<close> event with a populate
  configuration and a document id, when the re-fetch fails or returns nothing the
  handler still returns normally, the callback logs the failure at debug level (a
  re-fetch that returned nothing logs nothing) and publishes one envelope whose data
  is the JSON clone of the captured result: the result itself, when it holds no
  \<open>undefined\<close>.
\<close>

theorem refetch_failure_publishes_snapshot:
  assumes "hasPopulate ct" and "truthy (result ev)"
    and "truthy (get_prop_opt (result ev) ''documentId'')"
    and "findOne h (ct_uid ct)
           (JObj [(''documentId'', get_prop_opt (result ev) ''documentId''),
                  (''populate'', normalizePopulate (populateConfig ct))]) = Inl e
         \<or> (\<exists>r. findOne h (ct_uid ct)
                   (JObj [(''documentId'', get_prop_opt (result ev) ''documentId''),
                          (''populate'', normalizePopulate (populateConfig ct))]) = Inr r
                 \<and> \<not> truthy r)"
  shows "afterUpdate h ct ev w =
       Inr (ev, scheduleAfterTransaction h
                  (EmitSingle ''update'' ct (get_prop_opt (result ev) ''documentId'')
                     \<lparr>singularName = singularName (model ev), uid = uid (model ev)\<rparr> ev) 50 w)
     \<and> afterCreate h ct ev w =
       Inr (ev, scheduleAfterTransaction h
                  (EmitSingle ''create'' ct (get_prop_opt (result ev) ''documentId'')
                     \<lparr>singularName = singularName (model ev), uid = uid (model ev)\<rparr> ev) 50 w)
     \<and> (\<forall>eventType m v.
          run_callback h (EmitSingle eventType ct (get_prop_opt (result ev) ''documentId'') m ev) v =
          v\<lparr>storeCalls := storeCalls v @
                [FindOne (ct_uid ct)
                   (JObj [(''documentId'', get_prop_opt (result ev) ''documentId''),
                          (''populate'', normalizePopulate (populateConfig ct))])],
            logs := logs v @
                (if \<exists>r. findOne h (ct_uid ct)
                           (JObj [(''documentId'', get_prop_opt (result ev) ''documentId''),
                                  (''populate'', normalizePopulate (populateConfig ct))]) = Inr r
                 then []
                 else [(LogDebug, ''[socket.io] Error fetching with populate for '' @ ct_uid ct @ '':'')]),
            published := published v @
                [IoEmit (JObj [(''event'', JStr eventType), (''schema'', model_object m),
                               (''data'', json_value (result ev))])]\<rparr>)
     \<and> (json_shaped (result ev) \<longrightarrow> json_value (result ev) = result ev)"
proof -
  let ?doc = "get_prop_opt (result ev) ''documentId''"
  let ?arg = "JObj [(''documentId'', ?doc), (''populate'', normalizePopulate (populateConfig ct))]"
  have handler: "single_handler hook eventType h ct ev w =
       Inr (ev, scheduleAfterTransaction h
                  (EmitSingle eventType ct ?doc
                     \<lparr>singularName = singularName (model ev), uid = uid (model ev)\<rparr> ev) 50 w)"
    for hook eventType
    using assms(1,2) by (simp add: single_handler_def Let_def)
  have clone: "json_clone (result ev) = Inr (json_value (result ev))"
    using assms(2) by (rule json_clone_truthy)
  have fetch: "\<exists>fetched. \<not> truthy fetched \<and>
      fetchWithPopulate h (ct_uid ct) ?doc (populateConfig ct) v =
        (fetched,
         v\<lparr>storeCalls := storeCalls v @ [FindOne (ct_uid ct) ?arg],
           logs := logs v @
                (if \<exists>r. findOne h (ct_uid ct) ?arg = Inr r then []
                 else [(LogDebug, ''[socket.io] Error fetching with populate for '' @ ct_uid ct @ '':'')])\<rparr>)"
    for v
  proof (cases "findOne h (ct_uid ct) ?arg")
    case (Inl e')
    with assms(3) show ?thesis
      by (simp add: fetchWithPopulate_def Let_def log_at_def)
  next
    case (Inr r)
    with assms(4) have "\<not> truthy r" by auto
    with Inr assms(3) show ?thesis
      by (simp add: fetchWithPopulate_def Let_def)
  qed
  have run: "run_callback h (EmitSingle eventType ct ?doc m ev) v =
          v\<lparr>storeCalls := storeCalls v @ [FindOne (ct_uid ct) ?arg],
            logs := logs v @
                (if \<exists>r. findOne h (ct_uid ct) ?arg = Inr r then []
                 else [(LogDebug, ''[socket.io] Error fetching with populate for '' @ ct_uid ct @ '':'')]),
            published := published v @
                [IoEmit (JObj [(''event'', JStr eventType), (''schema'', model_object m),
                               (''data'', json_value (result ev))])]\<rparr>" for eventType m v
  proof -
    from fetch [of v] obtain fetched where nt: "\<not> truthy fetched"
      and f: "fetchWithPopulate h (ct_uid ct) ?doc (populateConfig ct) v =
        (fetched,
         v\<lparr>storeCalls := storeCalls v @ [FindOne (ct_uid ct) ?arg],
           logs := logs v @
                (if \<exists>r. findOne h (ct_uid ct) ?arg = Inr r then []
                 else [(LogDebug, ''[socket.io] Error fetching with populate for '' @ ct_uid ct @ '':'')])\<rparr>)"
      by blast
    show ?thesis
      using assms(1,3) nt
      by (simp add: emit_single_try_def f clone io_emit_def)
  qed
  have shaped: "json_shaped (result ev) \<longrightarrow> json_value (result ev) = result ev"
    by (simp add: json_value_shaped)
  from handler [of "''afterUpdate''" "''update''"] handler [of "''afterCreate''" "''create''"]
    run shaped
  show ?thesis
    by (simp add: afterUpdate_def afterCreate_def)
qed

theorem refetch_failure_publishes_snapshot_witness:
  "hasPopulate article_populated
   \<and> findOne failing_host (ct_uid article_populated)
        (JObj [(''documentId'', JStr ''d1''),
               (''populate'', normalizePopulate (populateConfig article_populated))]) = Inl StoreError
   \<and> run_callback failing_host
        (EmitSingle ''update'' article_populated (JStr ''d1'') article_model
           \<lparr>action = ''afterUpdate'', model = article_model,
            result = JObj [(''id'', JNum 1), (''documentId'', JStr ''d1''), (''title'', JStr ''t'')],
            params = [], state = []\<rparr>)
        initial_world
      = initial_world
          \<lparr>storeCalls := [FindOne ''api::article.article''
                            (JObj [(''documentId'', JStr ''d1''),
                                   (''populate'', JObj [(''author'', JBool True)])])],
           logs := [(LogDebug, ''[socket.io] Error fetching with populate for api::article.article:'')],
           published := [IoEmit (JObj [(''event'', JStr ''update''),
                           (''schema'', model_object article_model),
                           (''data'', JObj [(''id'', JNum 1), (''documentId'', JStr ''d1''),
                                           (''title'', JStr ''t'')])])]\<rparr>"
proof -
  let ?ev = "\<lparr>action = ''afterUpdate'', model = article_model,
            result = JObj [(''id'', JNum 1), (''documentId'', JStr ''d1''), (''title'', JStr ''t'')],
            params = [], state = []\<rparr>"
  have doc: "get_prop_opt (result ?ev) ''documentId'' = JStr ''d1''"
    by (simp add: obj_get_def)
  have a1: "hasPopulate article_populated"
    by (simp add: hasPopulate_def populateConfig_def article_populated_def)
  have a2: "truthy (result ?ev)" by simp
  have a3: "truthy (get_prop_opt (result ?ev) ''documentId'')" by (simp add: obj_get_def)
  have f: "findOne failing_host (ct_uid article_populated)
        (JObj [(''documentId'', JStr ''d1''),
               (''populate'', normalizePopulate (populateConfig article_populated))]) = Inl StoreError"
    by (simp add: failing_host_def)
  then have a4: "findOne failing_host (ct_uid article_populated)
           (JObj [(''documentId'', get_prop_opt (result ?ev) ''documentId''),
                  (''populate'', normalizePopulate (populateConfig article_populated))]) = Inl StoreError
         \<or> (\<exists>r. findOne failing_host (ct_uid article_populated)
                   (JObj [(''documentId'', get_prop_opt (result ?ev) ''documentId''),
                          (''populate'', normalizePopulate (populateConfig article_populated))]) = Inr r
                 \<and> \<not> truthy r)"
    by (simp only: doc simp_thms)
  note main = refetch_failure_publishes_snapshot [OF a1 a2 a3 a4, of initial_world,
      THEN conjunct2, THEN conjunct2, THEN conjunct1, rule_format,
      of "''update''" article_model initial_world]
  have "run_callback failing_host
        (EmitSingle ''update'' article_populated (JStr ''d1'') article_model ?ev) initial_world
      = initial_world
          \<lparr>storeCalls := [FindOne ''api::article.article''
                            (JObj [(''documentId'', JStr ''d1''),
                                   (''populate'', JObj [(''author'', JBool True)])])],
           logs := [(LogDebug, ''[socket.io] Error fetching with populate for api::article.article:'')],
           published := [IoEmit (JObj [(''event'', JStr ''update''),
                           (''schema'', model_object article_model),
                           (''data'', JObj [(''id'', JNum 1), (''documentId'', JStr ''d1''),
                                           (''title'', JStr ''t'')])])]\<rparr>"
    using main unfolding doc
    by (simp add: initial_world_def failing_host_def article_populated_def populateConfig_def
          obj_set_def)
  with a1 f show ?thesis by simp
qed

lemma emit_rows_published:
  "fold (\<lambda>r. io_emit (f r)) rows v = v\<lparr>published := published v @ map (\<lambda>r. IoEmit (f r)) rows\<rparr>"
  by (induction rows arbitrary: v) (simp_all add: io_emit_def)

lemma json_value_obj:
  "\<exists>props. json_value (JObj query) = JObj props \<and> (json_shaped (JObj query) \<longrightarrow> props = query)"
  using json_value_shaped [of "JObj query"] by simp

text \<open>
  The claim C4 reads "the query issued to \<open>findMany\<close> equals
  \<open>buildEventQuery(event)\<close>" for both bulk hooks.  \<open>afterUpdateMany\<close> does not call
  \<open>buildEventQuery\<close>: on a bulk update of three rows it asks the store for the
  captured filter alone, where \<open>buildEventQuery\<close> of the same event also carries the
  limit 3.
\<close>

theorem afterUpdateMany_query_counterexample:
  "beforeUpdateMany three_rows_host article
     \<lparr>action = ''beforeUpdateMany'', model = article_model, result = JUndefined,
      params = [(''where'', JObj [(''draft'', JBool True)]), (''data'', JObj [(''draft'', JBool False)])],
      state = []\<rparr> initial_world
   = Inr (\<lparr>action = ''beforeUpdateMany'', model = article_model, result = JUndefined,
           params = [(''where'', JObj [(''draft'', JBool True)]), (''data'', JObj [(''draft'', JBool False)])],
           state = [(''io'', JObj [(''params'',
                      JObj [(''where'', JObj [(''draft'', JBool True)]),
                            (''data'', JObj [(''draft'', JBool False)])])])]\<rparr>,
          initial_world)
   \<and> afterUpdateMany three_rows_host article
     \<lparr>action = ''afterUpdateMany'', model = article_model, result = JObj [(''count'', JNum 3)],
      params = [(''where'', JObj [(''draft'', JBool True)]), (''data'', JObj [(''draft'', JBool False)])],
      state = [(''io'', JObj [(''params'',
                      JObj [(''where'', JObj [(''draft'', JBool True)]),
                            (''data'', JObj [(''draft'', JBool False)])])])]\<rparr> initial_world
   = Inr (\<lparr>action = ''afterUpdateMany'', model = article_model, result = JObj [(''count'', JNum 3)],
           params = [(''where'', JObj [(''draft'', JBool True)]), (''data'', JObj [(''draft'', JBool False)])],
           state = [(''io'', JObj [(''params'',
                      JObj [(''where'', JObj [(''draft'', JBool True)]),
                            (''data'', JObj [(''draft'', JBool False)])])])]\<rparr>,
          initial_world
            \<lparr>transactionCtx := Some StoreCtx,
             timers := [(50, EmitBulk ''update'' article
                               (JObj [(''filters'', JObj [(''draft'', JBool True)])])
                               article_model)]\<rparr>)
   \<and> storeCalls (advance three_rows_host 50
        (initial_world
            \<lparr>transactionCtx := Some StoreCtx,
             timers := [(50, EmitBulk ''update'' article
                               (JObj [(''filters'', JObj [(''draft'', JBool True)])])
                               article_model)]\<rparr>))
     = [FindMany ''api::article.article'' (JObj [(''filters'', JObj [(''draft'', JBool True)])])]
   \<and> buildEventQuery
     \<lparr>action = ''afterUpdateMany'', model = article_model, result = JObj [(''count'', JNum 3)],
      params = [(''where'', JObj [(''draft'', JBool True)]), (''data'', JObj [(''draft'', JBool False)])],
      state = [(''io'', JObj [(''params'',
                      JObj [(''where'', JObj [(''draft'', JBool True)]),
                            (''data'', JObj [(''draft'', JBool False)])])])]\<rparr>
     = Inr [(''filters'', JObj [(''draft'', JBool True)]), (''limit'', JNum 3)]"
proof (intro conjI)
  show "beforeUpdateMany three_rows_host article
     \<lparr>action = ''beforeUpdateMany'', model = article_model, result = JUndefined,
      params = [(''where'', JObj [(''draft'', JBool True)]), (''data'', JObj [(''draft'', JBool False)])],
      state = []\<rparr> initial_world
   = Inr (\<lparr>action = ''beforeUpdateMany'', model = article_model, result = JUndefined,
           params = [(''where'', JObj [(''draft'', JBool True)]), (''data'', JObj [(''draft'', JBool False)])],
           state = [(''io'', JObj [(''params'',
                      JObj [(''where'', JObj [(''draft'', JBool True)]),
                            (''data'', JObj [(''draft'', JBool False)])])])]\<rparr>,
          initial_world)"
    by (simp add: beforeUpdateMany_def obj_get_def obj_set_def bindE_def)
next
  show "afterUpdateMany three_rows_host article
     \<lparr>action = ''afterUpdateMany'', model = article_model, result = JObj [(''count'', JNum 3)],
      params = [(''where'', JObj [(''draft'', JBool True)]), (''data'', JObj [(''draft'', JBool False)])],
      state = [(''io'', JObj [(''params'',
                      JObj [(''where'', JObj [(''draft'', JBool True)]),
                            (''data'', JObj [(''draft'', JBool False)])])])]\<rparr> initial_world
   = Inr (\<lparr>action = ''afterUpdateMany'', model = article_model, result = JObj [(''count'', JNum 3)],
           params = [(''where'', JObj [(''draft'', JBool True)]), (''data'', JObj [(''draft'', JBool False)])],
           state = [(''io'', JObj [(''params'',
                      JObj [(''where'', JObj [(''draft'', JBool True)]),
                            (''data'', JObj [(''draft'', JBool False)])])])]\<rparr>,
          initial_world
            \<lparr>transactionCtx := Some StoreCtx,
             timers := [(50, EmitBulk ''update'' article
                               (JObj [(''filters'', JObj [(''draft'', JBool True)])])
                               article_model)]\<rparr>)"
    by (simp add: afterUpdateMany_def obj_get_def bindE_def json_clone_def Let_def
          hasPopulate_def populateConfig_def article_def article_model_def
          scheduleAfterTransaction_def getTransactionCtx_def three_rows_host_def
          ctx_get_def runner_def setTimeout_def initial_world_def)
next
  show "storeCalls (advance three_rows_host 50
        (initial_world
            \<lparr>transactionCtx := Some StoreCtx,
             timers := [(50, EmitBulk ''update'' article
                               (JObj [(''filters'', JObj [(''draft'', JBool True)])])
                               article_model)]\<rparr>))
     = [FindMany ''api::article.article'' (JObj [(''filters'', JObj [(''draft'', JBool True)])])]"
    by (simp add: advance_single initial_world_def emit_bulk_try_def three_rows_host_def
          article_def io_emit_def)
next
  show "buildEventQuery
     \<lparr>action = ''afterUpdateMany'', model = article_model, result = JObj [(''count'', JNum 3)],
      params = [(''where'', JObj [(''draft'', JBool True)]), (''data'', JObj [(''draft'', JBool False)])],
      state = [(''io'', JObj [(''params'',
                      JObj [(''where'', JObj [(''draft'', JBool True)]),
                            (''data'', JObj [(''draft'', JBool False)])])])]\<rparr>
     = Inr [(''filters'', JObj [(''draft'', JBool True)]), (''limit'', JNum 3)]"
    by (simp add: buildEventQuery_def obj_get_def obj_set_def)
qed

text \<open>
  C4, as amended.  \<open>afterCreateMany\<close> issues the JSON clone of
  \<open>buildEventQuery(event)\<close>, with the normalized populate added when one is
  configured, and issues nothing when that query has no truthy filters (the clone is
  the query itself when it holds no \<open>undefined\<close>).  \<open>afterUpdateMany\<close> issues
  \<open>{filters: where}\<close>, with \<open>where\<close> the JSON clone of the where-parameters that
  \<open>beforeUpdateMany\<close> stored in the event's state, with the normalized populate added
  when one is configured, and no limit.  In both, when the callback runs and the
  store returns its rows, one envelope is emitted per row, in order.
\<close>

theorem bulk_read_back_query:
  "(buildEventQuery ev = Inr query \<and> truthy (obj_get query ''filters'') \<longrightarrow>
      (\<exists>props. json_value (JObj query) = JObj props
         \<and> (json_shaped (JObj query) \<longrightarrow> props = query)
         \<and> afterCreateMany h ct ev w =
             Inr (ev, scheduleAfterTransaction h
                        (EmitBulk ''create'' ct
                           (JObj (if hasPopulate ct
                                  then obj_set props ''populate'' (normalizePopulate (populateConfig ct))
                                  else props))
                           \<lparr>singularName = singularName (model ev), uid = uid (model ev)\<rparr>)
                        50 w)))
   \<and> (buildEventQuery ev = Inr query \<and> \<not> truthy (obj_get query ''filters'') \<longrightarrow>
        afterCreateMany h ct ev w = Inr (ev, w))
   \<and> (\<not> truthy (obj_get (state ev) ''io'') \<longrightarrow>
        beforeUpdateMany h ct ev w =
          Inr (ev\<lparr>state := obj_set (state ev) ''io'' (JObj [(''params'', JObj (params ev))])\<rparr>, w))
   \<and> (truthy (get_prop_opt (obj_get (state ev) ''io'') ''params'')
        \<and> truthy (get_prop_opt (get_prop_opt (obj_get (state ev) ''io'') ''params'') ''where'') \<longrightarrow>
        afterUpdateMany h ct ev w =
          Inr (ev, scheduleAfterTransaction h
                     (EmitBulk ''update'' ct
                        (JObj ((''filters'',
                                json_value (get_prop_opt (get_prop_opt (obj_get (state ev) ''io'') ''params'')
                                              ''where''))
                               # (if hasPopulate ct
                                  then [(''populate'', normalizePopulate (populateConfig ct))]
                                  else [])))
                        \<lparr>singularName = singularName (model ev), uid = uid (model ev)\<rparr>)
                     50 w))
   \<and> (findMany h (ct_uid ct) q = Inr (JArr rows) \<longrightarrow>
        run_callback h (EmitBulk eventType ct q m) v =
          v\<lparr>storeCalls := storeCalls v @ [FindMany (ct_uid ct) q],
            published := published v @
               map (\<lambda>r. IoEmit (JObj [(''event'', JStr eventType), (''schema'', model_object m),
                                       (''data'', r)])) rows\<rparr>)"
proof (intro conjI impI)
  assume a: "buildEventQuery ev = Inr query \<and> truthy (obj_get query ''filters'')"
  from json_value_obj [of query] obtain props where p: "json_value (JObj query) = JObj props"
    and s: "json_shaped (JObj query) \<longrightarrow> props = query" by blast
  have "afterCreateMany h ct ev w =
             Inr (ev, scheduleAfterTransaction h
                        (EmitBulk ''create'' ct
                           (JObj (if hasPopulate ct
                                  then obj_set props ''populate'' (normalizePopulate (populateConfig ct))
                                  else props))
                           \<lparr>singularName = singularName (model ev), uid = uid (model ev)\<rparr>)
                        50 w)"
    using a p by (simp add: afterCreateMany_def bindE_def json_clone_def Let_def)
  with p s show "\<exists>props. json_value (JObj query) = JObj props
         \<and> (json_shaped (JObj query) \<longrightarrow> props = query)
         \<and> afterCreateMany h ct ev w =
             Inr (ev, scheduleAfterTransaction h
                        (EmitBulk ''create'' ct
                           (JObj (if hasPopulate ct
                                  then obj_set props ''populate'' (normalizePopulate (populateConfig ct))
                                  else props))
                           \<lparr>singularName = singularName (model ev), uid = uid (model ev)\<rparr>)
                        50 w)"
    by blast
next
  assume "buildEventQuery ev = Inr query \<and> \<not> truthy (obj_get query ''filters'')"
  then show "afterCreateMany h ct ev w = Inr (ev, w)"
    by (simp add: afterCreateMany_def bindE_def)
next
  assume "\<not> truthy (obj_get (state ev) ''io'')"
  then show "beforeUpdateMany h ct ev w =
          Inr (ev\<lparr>state := obj_set (state ev) ''io'' (JObj [(''params'', JObj (params ev))])\<rparr>, w)"
    by (simp add: beforeUpdateMany_def bindE_def Let_def obj_get_obj_set)
       (simp add: obj_set_def)
next
  let ?where = "get_prop_opt (get_prop_opt (obj_get (state ev) ''io'') ''params'') ''where''"
  assume a: "truthy (get_prop_opt (obj_get (state ev) ''io'') ''params'') \<and> truthy ?where"
  then have "json_clone ?where = Inr (json_value ?where)" by (simp add: json_clone_truthy)
  with a show "afterUpdateMany h ct ev w =
          Inr (ev, scheduleAfterTransaction h
                     (EmitBulk ''update'' ct
                        (JObj ((''filters'', json_value ?where)
                               # (if hasPopulate ct
                                  then [(''populate'', normalizePopulate (populateConfig ct))]
                                  else [])))
                        \<lparr>singularName = singularName (model ev), uid = uid (model ev)\<rparr>)
                     50 w)"
    by (simp add: afterUpdateMany_def bindE_def Let_def obj_set_def)
next
  assume "findMany h (ct_uid ct) q = Inr (JArr rows)"
  then show "run_callback h (EmitBulk eventType ct q m) v =
          v\<lparr>storeCalls := storeCalls v @ [FindMany (ct_uid ct) q],
            published := published v @
               map (\<lambda>r. IoEmit (JObj [(''event'', JStr eventType), (''schema'', model_object m),
                                       (''data'', r)])) rows\<rparr>"
    by (simp add: emit_bulk_try_def emit_rows_published)
qed


theorem bulk_read_back_query_witness:
  "findMany three_rows_host (ct_uid article) (JObj [(''filters'', JObj [(''draft'', JBool True)])])
     = Inr (JArr [JObj [(''id'', JNum 1)], JObj [(''id'', JNum 2)], JObj [(''id'', JNum 3)]])
   \<and> run_callback three_rows_host
        (EmitBulk ''update'' article (JObj [(''filters'', JObj [(''draft'', JBool True)])]) article_model)
        initial_world
     = initial_world
        \<lparr>storeCalls := [FindMany ''api::article.article''
                          (JObj [(''filters'', JObj [(''draft'', JBool True)])])],
         published :=
           [IoEmit (JObj [(''event'', JStr ''update''), (''schema'', model_object article_model),
                          (''data'', JObj [(''id'', JNum 1)])]),
            IoEmit (JObj [(''event'', JStr ''update''), (''schema'', model_object article_model),
                          (''data'', JObj [(''id'', JNum 2)])]),
            IoEmit (JObj [(''event'', JStr ''update''), (''schema'', model_object article_model),
                          (''data'', JObj [(''id'', JNum 3)])])]\<rparr>
   \<and> buildEventQuery
        \<lparr>action = ''afterCreateMany'', model = article_model,
         result = JObj [(''count'', JNum 2), (''ids'', JArr [JNum 11, JNum 12])],
         params = [(''data'', JArr [])], state = []\<rparr>
     = Inr [(''limit'', JNum 2), (''filters'', JObj [(''id'', JArr [JNum 11, JNum 12])])]
   \<and> afterCreateMany quiet_host article
        \<lparr>action = ''afterCreateMany'', model = article_model,
         result = JObj [(''count'', JNum 2), (''ids'', JArr [JNum 11, JNum 12])],
         params = [(''data'', JArr [])], state = []\<rparr> initial_world
     = Inr (\<lparr>action = ''afterCreateMany'', model = article_model,
             result = JObj [(''count'', JNum 2), (''ids'', JArr [JNum 11, JNum 12])],
             params = [(''data'', JArr [])], state = []\<rparr>,
            scheduleAfterTransaction quiet_host
              (EmitBulk ''create'' article
                 (JObj [(''limit'', JNum 2), (''filters'', JObj [(''id'', JArr [JNum 11, JNum 12])])])
                 article_model)
              50 initial_world)"
proof -
  let ?q = "JObj [(''filters'', JObj [(''draft'', JBool True)])]"
  let ?ev = "\<lparr>action = ''afterCreateMany'', model = article_model,
         result = JObj [(''count'', JNum 2), (''ids'', JArr [JNum 11, JNum 12])],
         params = [(''data'', JArr [])], state = []\<rparr>"
  let ?query = "[(''limit'', JNum 2), (''filters'', JObj [(''id'', JArr [JNum 11, JNum 12])])]"
  note main = bulk_read_back_query
  have f: "findMany three_rows_host (ct_uid article) ?q
     = Inr (JArr [JObj [(''id'', JNum 1)], JObj [(''id'', JNum 2)], JObj [(''id'', JNum 3)]])"
    by (simp add: three_rows_host_def)
  from main [THEN conjunct2, THEN conjunct2, THEN conjunct2, THEN conjunct2, rule_format, OF f,
      of "''update''" article_model initial_world]
  have r: "run_callback three_rows_host (EmitBulk ''update'' article ?q article_model) initial_world
     = initial_world
        \<lparr>storeCalls := [FindMany ''api::article.article'' ?q],
         published :=
           [IoEmit (JObj [(''event'', JStr ''update''), (''schema'', model_object article_model),
                          (''data'', JObj [(''id'', JNum 1)])]),
            IoEmit (JObj [(''event'', JStr ''update''), (''schema'', model_object article_model),
                          (''data'', JObj [(''id'', JNum 2)])]),
            IoEmit (JObj [(''event'', JStr ''update''), (''schema'', model_object article_model),
                          (''data'', JObj [(''id'', JNum 3)])])]\<rparr>"
    by (simp add: initial_world_def article_def)
  have b: "buildEventQuery ?ev = Inr ?query"
    by (simp add: buildEventQuery_def obj_get_def obj_set_def bindE_def)
  have t: "truthy (obj_get ?query ''filters'')" by (simp add: obj_get_def)
  from b t have "buildEventQuery ?ev = Inr ?query \<and> truthy (obj_get ?query ''filters'')"
    by (rule conjI)
  from main [THEN conjunct1, rule_format, OF this, of quiet_host article initial_world]
  obtain props where s: "json_shaped (JObj ?query) \<longrightarrow> props = ?query"
    and a: "afterCreateMany quiet_host article ?ev initial_world =
             Inr (?ev, scheduleAfterTransaction quiet_host
                        (EmitBulk ''create'' article
                           (JObj (if hasPopulate article
                                  then obj_set props ''populate'' (normalizePopulate (populateConfig article))
                                  else props))
                           \<lparr>singularName = singularName (model ?ev), uid = uid (model ?ev)\<rparr>)
                        50 initial_world)"
    by blast
  from s have "props = ?query" by simp
  with a have c: "afterCreateMany quiet_host article ?ev initial_world =
             Inr (?ev, scheduleAfterTransaction quiet_host
                        (EmitBulk ''create'' article (JObj ?query) article_model) 50 initial_world)"
    by (simp add: hasPopulate_def populateConfig_def article_def article_model_def)
  from f r b c show ?thesis by (intro conjI)
qed

end
